theory Spec2Isabelle
  imports Complex_Main
begin

section \<open>Pannellum tile generator: a shallow embedding\<close>

text \<open>
  The theory follows the TypeScript sources: \<^verbatim>\<open>config-generator.ts\<close> (level count and
  descriptor), \<^verbatim>\<open>tiler.ts\<close> (tile pyramid), \<^verbatim>\<open>memory-manager.ts\<close> (resource tracker),
  \<^verbatim>\<open>reprojector.ts\<close> (cube faces) and \<^verbatim>\<open>PannellumTiler.ts\<close> (the pipeline).

  Conventions. JavaScript numbers that hold sizes, levels and coordinates are modelled as
  \<open>int\<close> (the sizes of rasters are integers far below \<open>2^53\<close>, on which \<^verbatim>\<open>Math.floor\<close> of a
  quotient by a power of two is exact). The quotient of two floating-point logarithms in
  \<^verbatim>\<open>calculateMaxLevel\<close> is not exact: its value is taken from the platform, as a
  parameter. Progress fractions are exact rationals. A thrown exception or a rejected
  promise is the \<open>Inl\<close> branch of a sum.
  Callbacks are modelled by whether they throw on a given argument; every invocation is
  appended to a call log, so that the theorems can speak about which callbacks ran.
  Rasters are symbolic terms recording their provenance; the browser's encoder is a
  parameter that either returns the encoded bytes or fails.
\<close>

subsection \<open>Errors\<close>

datatype kind = Canvas | Renderer | Texture | Geometry | Material | RenderTarget

type_synonym resource = "kind \<times> nat"

datatype error =
    Disposed                          \<comment> \<open>'PannellumTiler instance has been disposed'\<close>
  | SourceImageRequired               \<comment> \<open>'sourceImage is required'\<close>
  | OutputModeRequired                \<comment> \<open>'output mode is required'\<close>
  | InvalidOutputMode string          \<comment> \<open>'Invalid output mode: ...'\<close>
  | QualityOutOfRange                 \<comment> \<open>'quality must be between 0 and 1'\<close>
  | TileSizeNotPositive               \<comment> \<open>'tileSize must be a positive integer'\<close>
  | CubeResolutionExceeds int int     \<comment> \<open>'Cube resolution c exceeds maximum texture size m'\<close>
  | EncodingError                     \<comment> \<open>'Failed to encode tile', or a rejected convertToBlob\<close>
  | LoadError                         \<comment> \<open>the image loader rejected\<close>
  | ZipError                          \<comment> \<open>'ZIP creation failed: ...'\<close>
  | UnknownOutputMode string          \<comment> \<open>'Unknown output mode: ...'\<close>
  | CallbackError string              \<comment> \<open>thrown by the callback of that name\<close>
  | DisposeError resource             \<comment> \<open>thrown by the \<^verbatim>\<open>dispose()\<close> of that resource\<close>

subsection \<open>Config Builder (\<^verbatim>\<open>config-generator.ts\<close>)\<close>

datatype image_format = Jpeg | Webp

text \<open>\<^verbatim>\<open>imageFormat === 'webp' ? 'webp' : 'jpg'\<close>\<close>

definition extension :: "image_format \<Rightarrow> string" where
  "extension imageFormat = (if imageFormat = Webp then ''webp'' else ''jpg'')"

text \<open>
  \<^verbatim>\<open>generateConfig\<close>. The descriptor is kept as a structured value; its JSON text is not
  modelled. \<open>maxLevel\<close> is an option because the pipeline can hand over \<^verbatim>\<open>NaN\<close> (see
  \<open>calculateMaxLevel\<close>).
\<close>

record tile_metadata =
  tm_tileSize :: int
  tm_maxLevel :: "int option"
  tm_cubeResolution :: int
  tm_imageFormat :: image_format
  tm_hasFallback :: bool

record descriptor =
  d_basePath :: string
  d_path :: string
  d_extension :: string
  d_tileResolution :: int
  d_maxLevel :: "int option"
  d_cubeResolution :: int
  d_fallbackPath :: "string option"

definition generateConfig :: "tile_metadata \<Rightarrow> descriptor" where
  "generateConfig metadata =
     \<lparr> d_basePath = ''./'',
       d_path = ''/%l/%s/%x_%y'',
       d_extension = extension (tm_imageFormat metadata),
       d_tileResolution = tm_tileSize metadata,
       d_maxLevel = tm_maxLevel metadata,
       d_cubeResolution = tm_cubeResolution metadata,
       d_fallbackPath = (if tm_hasFallback metadata then Some ''/fallback/%s'' else None) \<rparr>"

text \<open>\<^verbatim>\<open>calculateCubeResolution\<close>: \<^verbatim>\<open>8 * Math.floor(imageWidth / Math.PI / 8)\<close>.\<close>

definition calculateCubeResolution :: "int \<Rightarrow> int \<Rightarrow> int" where
  "calculateCubeResolution imageWidth imageHeight = 8 * \<lfloor>real_of_int imageWidth / pi / 8\<rfloor>"

text \<open>
  \<^verbatim>\<open>calculateMaxLevel\<close>. The source computes
  \<^verbatim>\<open>Math.ceil(Math.log(cubeResolution / effectiveTileSize) / Math.log(2))\<close> in IEEE double
  arithmetic, where the two logarithms and their quotient are rounded. The value of that
  expression is the parameter \<open>ceilLog2\<close>, applied to \<open>cubeResolution\<close> and
  \<open>effectiveTileSize\<close>: the model does not fix how the platform rounds. The rest is the
  source's: \<open>+ 1\<close>, the correction guarded by
  \<^verbatim>\<open>levels >= 2 && Math.floor(c / Math.pow(2, levels - 2)) === e\<close> (a quotient by a power of
  two, exact on doubles), and \<^verbatim>\<open>Math.max(1, levels)\<close>.
  The first test is not in the source: it marks the inputs on which the JavaScript
  arithmetic leaves the finite numbers. For \<open>cubeResolution = 0\<close> the quotient is \<open>0 / 0\<close>
  and the function returns \<^verbatim>\<open>NaN\<close>; a \<open>tileSize\<close> below 1 (which \<^verbatim>\<open>validateConfig\<close> rejects)
  can give \<^verbatim>\<open>NaN\<close> or \<^verbatim>\<open>Infinity\<close>. Both are \<open>None\<close> here.
\<close>

definition calculateMaxLevel :: "(int \<Rightarrow> int \<Rightarrow> int) \<Rightarrow> int \<Rightarrow> int \<Rightarrow> int option" where
  "calculateMaxLevel ceilLog2 cubeResolution tileSize =
    (if tileSize < 1 \<or> cubeResolution = 0 then None
     else
       let effectiveTileSize = min tileSize cubeResolution;
           levels = ceilLog2 cubeResolution effectiveTileSize + 1;
           levels' = (if levels \<ge> 2 \<and>
                         \<lfloor>real_of_int cubeResolution / 2 ^ nat (levels - 2)\<rfloor> = effectiveTileSize
                      then levels - 1 else levels)
       in Some (max 1 levels'))"


subsection \<open>Callbacks, progress events and the call log\<close>

datatype stage = Loading | Reprojection | Tiling | Encoding | Packaging

text \<open>\<^verbatim>\<open>ProgressInfo\<close>, without the human-readable \<^verbatim>\<open>message\<close>.\<close>

record progress_info =
  p_stage :: stage
  p_progress :: rat
  p_currentLevel :: "int option"
  p_currentFace :: "string option"

text \<open>
  A callback has a name and a behaviour: on which arguments it throws. When it throws,
  the exception is \<open>CallbackError name\<close>.
\<close>

record 'a callback =
  cb_name :: string
  cb_throws :: "'a \<Rightarrow> bool"

datatype invocation = ProgressCall string progress_info | ErrorCall string error

subsection \<open>Resource Tracker (\<^verbatim>\<open>memory-manager.ts\<close>)\<close>

text \<open>
  The four sets are JavaScript \<^verbatim>\<open>Set\<close>s: insertion-ordered, without duplicates.
\<close>

record memory_manager =
  textures :: "resource list"
  geometries :: "resource list"
  materials :: "resource list"
  renderTargets :: "resource list"
  renderer :: "resource option"

definition new_MemoryManager :: memory_manager where
  "new_MemoryManager =
     \<lparr> textures = [], geometries = [], materials = [], renderTargets = [], renderer = None \<rparr>"

text \<open>\<^verbatim>\<open>Set.prototype.add\<close>\<close>

definition set_add :: "'a \<Rightarrow> 'a list \<Rightarrow> 'a list" where
  "set_add x xs = (if x \<in> set xs then xs else xs @ [x])"

definition trackTexture :: "resource \<Rightarrow> memory_manager \<Rightarrow> memory_manager" where
  "trackTexture texture mm = mm\<lparr>textures := set_add texture (textures mm)\<rparr>"

definition trackGeometry :: "resource \<Rightarrow> memory_manager \<Rightarrow> memory_manager" where
  "trackGeometry geometry mm = mm\<lparr>geometries := set_add geometry (geometries mm)\<rparr>"

definition trackMaterial :: "resource \<Rightarrow> memory_manager \<Rightarrow> memory_manager" where
  "trackMaterial material mm = mm\<lparr>materials := set_add material (materials mm)\<rparr>"

definition trackRenderTarget :: "resource \<Rightarrow> memory_manager \<Rightarrow> memory_manager" where
  "trackRenderTarget target mm = mm\<lparr>renderTargets := set_add target (renderTargets mm)\<rparr>"

definition setRenderer :: "resource \<Rightarrow> memory_manager \<Rightarrow> memory_manager" where
  "setRenderer r mm = mm\<lparr>renderer := Some r\<rparr>"

text \<open>
  The state the pipeline acts on: the tracker of the current \<^verbatim>\<open>Reprojector\<close>, the
  resources created so far, the resources whose \<^verbatim>\<open>dispose()\<close> has run, and the call log.
\<close>

record world =
  memory :: memory_manager
  allocated :: "resource list"
  released :: "resource list"
  calls :: "invocation list"

definition new_world :: world where
  "new_world = \<lparr> memory = new_MemoryManager, allocated = [], released = [], calls = [] \<rparr>"

text \<open>
  \<^verbatim>\<open>for (const r of set) r.dispose()\<close>: the loop stops at the first \<^verbatim>\<open>dispose()\<close> that
  throws. \<open>fails\<close> says which resources' \<^verbatim>\<open>dispose()\<close> throws.
\<close>

fun disposeEach :: "(resource \<Rightarrow> bool) \<Rightarrow> resource list \<Rightarrow> world \<Rightarrow> error option \<times> world" where
  "disposeEach fails [] w = (None, w)"
| "disposeEach fails (r # rs) w =
     (if fails r then (Some (DisposeError r), w)
      else disposeEach fails rs (w\<lparr>released := released w @ [r]\<rparr>))"

text \<open>
  \<^verbatim>\<open>disposeAll\<close>: textures, geometries, materials, render targets, each set cleared after
  its loop, then the renderer. There is no \<^verbatim>\<open>try\<close> in the source: an exception leaves at
  once, with the sets not yet cleared as they are.
\<close>

definition disposeAll :: "(resource \<Rightarrow> bool) \<Rightarrow> world \<Rightarrow> error option \<times> world" where
  "disposeAll fails w0 =
    (case disposeEach fails (textures (memory w0)) w0 of
       (Some e, w) \<Rightarrow> (Some e, w)
     | (None, w) \<Rightarrow>
    let w = w\<lparr>memory := (memory w)\<lparr>textures := []\<rparr>\<rparr> in
    (case disposeEach fails (geometries (memory w)) w of
       (Some e, w) \<Rightarrow> (Some e, w)
     | (None, w) \<Rightarrow>
    let w = w\<lparr>memory := (memory w)\<lparr>geometries := []\<rparr>\<rparr> in
    (case disposeEach fails (materials (memory w)) w of
       (Some e, w) \<Rightarrow> (Some e, w)
     | (None, w) \<Rightarrow>
    let w = w\<lparr>memory := (memory w)\<lparr>materials := []\<rparr>\<rparr> in
    (case disposeEach fails (renderTargets (memory w)) w of
       (Some e, w) \<Rightarrow> (Some e, w)
     | (None, w) \<Rightarrow>
    let w = w\<lparr>memory := (memory w)\<lparr>renderTargets := []\<rparr>\<rparr> in
    (case renderer (memory w) of
       None \<Rightarrow> (None, w)
     | Some r \<Rightarrow>
         if fails r then (Some (DisposeError r), w)
         else (None, w\<lparr>released := released w @ [r],
                        memory := (memory w)\<lparr>renderer := None\<rparr>\<rparr>))))))"


text \<open>
  A progress sink is a function that may throw and may extend the call log;
  \<open>callSink\<close> is the optional call \<^verbatim>\<open>onProgress?.(info)\<close>.
\<close>

type_synonym 'a sink = "'a \<Rightarrow> world \<Rightarrow> error option \<times> world"

fun callSink :: "'a sink option \<Rightarrow> 'a \<Rightarrow> world \<Rightarrow> error option \<times> world" where
  "callSink None info w = (None, w)"
| "callSink (Some f) info w = f info w"

subsection \<open>Rasters, faces and tiles (\<^verbatim>\<open>types.ts\<close>)\<close>

record image =
  naturalWidth :: int
  naturalHeight :: int

record face_config =
  fc_name :: string
  fc_target :: "int \<times> int \<times> int"
  fc_up :: "int \<times> int \<times> int"

text \<open>
  A raster is either what the reprojector rendered for one face configuration at a given
  resolution, or the result of \<^verbatim>\<open>downscaleCanvas\<close>.
\<close>

datatype canvas = FaceCanvas image face_config int | Downscaled canvas int

record cube_face =
  face_name :: string
  face_canvas :: canvas
  face_resolution :: int

type_synonym blob = "nat list"

record tile =
  tile_path :: string
  tile_level :: int
  tile_face :: string
  tile_x :: int
  tile_y :: int
  tile_blob :: blob
  tile_size :: nat

text \<open>
  What \<^verbatim>\<open>extractTile\<close> hands to the browser: \<^verbatim>\<open>drawImage(source, sx, sy, sw, sh, 0, 0,
  outputSize, outputSize)\<close> followed by \<^verbatim>\<open>convertToBlob\<close> or \<^verbatim>\<open>toBlob\<close> with a MIME type and
  a quality. The encoder answers with the bytes, or fails.
\<close>

record encode_request =
  rq_source :: canvas
  rq_sx :: int
  rq_sy :: int
  rq_sw :: int
  rq_sh :: int
  rq_outputSize :: int
  rq_mimeType :: string
  rq_quality :: rat

type_synonym encoder = "encode_request \<Rightarrow> blob option"

subsection \<open>Number formatting in template strings\<close>

fun showNat :: "nat \<Rightarrow> string" where
  "showNat n = (if n < 10 then [''0123456789'' ! n]
                else showNat (n div 10) @ [''0123456789'' ! (n mod 10)])"

declare showNat.simps [simp del]

definition showInt :: "int \<Rightarrow> string" where
  "showInt i = (if i < 0 then ''-'' @ showNat (nat (- i)) else showNat (nat i))"

subsection \<open>Tile Pyramid Generator (\<^verbatim>\<open>tiler.ts\<close>)\<close>

definition TILE_BATCH_SIZE :: nat where
  "TILE_BATCH_SIZE = 10"

record tiler =
  tiler_quality :: rat
  tiler_imageFormat :: image_format

text \<open>\<^verbatim>\<open>constructor(quality = 0.9, imageFormat = 'jpeg')\<close>\<close>

definition new_Tiler :: "rat \<Rightarrow> image_format \<Rightarrow> tiler" where
  "new_Tiler quality imageFormat = \<lparr> tiler_quality = quality, tiler_imageFormat = imageFormat \<rparr>"

definition extractTile ::
  "encoder \<Rightarrow> tiler \<Rightarrow> canvas \<Rightarrow> int \<Rightarrow> int \<Rightarrow> int \<Rightarrow> int \<Rightarrow> int \<Rightarrow> error + blob" where
  "extractTile enc this source sx sy sw sh outputSize =
    (let mimeType = (if tiler_imageFormat this = Webp then ''image/webp'' else ''image/jpeg'')
     in case enc \<lparr> rq_source = source, rq_sx = sx, rq_sy = sy, rq_sw = sw, rq_sh = sh,
                    rq_outputSize = outputSize, rq_mimeType = mimeType,
                    rq_quality = tiler_quality this \<rparr> of
          None \<Rightarrow> Inl EncodingError
        | Some b \<Rightarrow> Inr b)"

definition downscaleCanvas :: "canvas \<Rightarrow> int \<Rightarrow> canvas" where
  "downscaleCanvas source newSize = Downscaled source newSize"

definition buildTile ::
  "encoder \<Rightarrow> tiler \<Rightarrow> canvas \<Rightarrow> int \<Rightarrow> int \<Rightarrow> int \<Rightarrow> string \<Rightarrow> int \<Rightarrow> int \<Rightarrow> error + tile" where
  "buildTile enc this source sourceResolution tileSize level faceName x y =
    (let sx = x * tileSize;
         sy = y * tileSize;
         sw = min tileSize (sourceResolution - sx);
         sh = min tileSize (sourceResolution - sy)
     in case extractTile enc this source sx sy sw sh tileSize of
          Inl e \<Rightarrow> Inl e
        | Inr blob \<Rightarrow>
            let ext = (if tiler_imageFormat this = Webp then ''webp'' else ''jpg'')
            in Inr \<lparr> tile_path = showInt level @ ''/'' @ faceName @ ''/'' @ showInt x @ ''_''
                                   @ showInt y @ ''.'' @ ext,
                     tile_level = level,
                     tile_face = faceName,
                     tile_x = x,
                     tile_y = y,
                     tile_blob = blob,
                     tile_size = length blob \<rparr>)"

text \<open>
  \<^verbatim>\<open>Promise.all\<close> over the encodes of one batch: the results in the order of the batch, or
  a rejection if one of them rejects.
\<close>

fun promiseAll :: "(error + 'a) list \<Rightarrow> error + 'a list" where
  "promiseAll [] = Inr []"
| "promiseAll (p # ps) =
     (case p of
        Inl e \<Rightarrow> Inl e
      | Inr v \<Rightarrow> (case promiseAll ps of Inl e \<Rightarrow> Inl e | Inr vs \<Rightarrow> Inr (v # vs)))"

text \<open>
  The batch loop of \<^verbatim>\<open>generateFaceTiles\<close>:
  \<^verbatim>\<open>for (let i = 0; i < tileCoords.length; i += TILE_BATCH_SIZE)\<close>. \<open>build\<close> is the call of
  \<^verbatim>\<open>buildTile\<close> on one coordinate and \<open>report\<close> the progress call on \<^verbatim>\<open>completedInLevel\<close>;
  both are filled in by \<open>generateFaceTiles\<close> below.
\<close>

function batchLoop ::
  "(int \<times> int \<Rightarrow> error + tile) \<Rightarrow> (nat \<Rightarrow> world \<Rightarrow> error option \<times> world) \<Rightarrow>
   (int \<times> int) list \<Rightarrow> nat \<Rightarrow> tile list \<Rightarrow> world \<Rightarrow> (error + tile list) \<times> world" where
  "batchLoop build report tileCoords i tiles w =
    (if i < length tileCoords then
       let batch = take TILE_BATCH_SIZE (drop i tileCoords) in
       case promiseAll (map build batch) of
         Inl e \<Rightarrow> (Inl e, w)
       | Inr batchResults \<Rightarrow>
           let tiles' = tiles @ batchResults;
               completedInLevel = min (i + TILE_BATCH_SIZE) (length tileCoords)
           in case report completedInLevel w of
                (Some e, w') \<Rightarrow> (Inl e, w')
              | (None, w') \<Rightarrow> batchLoop build report tileCoords (i + TILE_BATCH_SIZE) tiles' w'
     else (Inr tiles, w))"
  by pat_completeness auto
termination
  by (relation "measure (\<lambda>(build, report, tileCoords, i, tiles, w). length tileCoords - i)")
     (auto simp: TILE_BATCH_SIZE_def)

declare batchLoop.simps [simp del]

text \<open>
  The level loop of \<^verbatim>\<open>generateFaceTiles\<close>: \<^verbatim>\<open>for (let level = maxLevel; level >= 1; level--)\<close>,
  halving the resolution and downscaling the previous raster on every level below
  \<open>maxLevel\<close>. \<open>body\<close> is the rest of the loop body, run on the raster of the level.
\<close>

function levelLoop ::
  "(int \<Rightarrow> canvas \<Rightarrow> int \<Rightarrow> 'a \<Rightarrow> world \<Rightarrow> (error + 'a) \<times> world) \<Rightarrow>
   int \<Rightarrow> int \<Rightarrow> canvas \<Rightarrow> int \<Rightarrow> 'a \<Rightarrow> world \<Rightarrow> (error + 'a) \<times> world" where
  "levelLoop body maxLevel level currentCanvas currentResolution tiles w =
    (if level \<ge> 1 then
       let currentResolution' =
             (if level < maxLevel then currentResolution div 2 else currentResolution);
           currentCanvas' =
             (if level < maxLevel then downscaleCanvas currentCanvas currentResolution'
              else currentCanvas)
       in case body level currentCanvas' currentResolution' tiles w of
            (Inl e, w') \<Rightarrow> (Inl e, w')
          | (Inr tiles', w') \<Rightarrow>
              levelLoop body maxLevel (level - 1) currentCanvas' currentResolution' tiles' w'
     else (Inr tiles, w))"
  by pat_completeness auto
termination
  by (relation "measure (\<lambda>(body, maxLevel, level, cv, res, tiles, w). nat level)") auto

declare levelLoop.simps [simp del]


text \<open>
  \<^verbatim>\<open>Math.ceil(currentResolution / tileSize)\<close>, in real arithmetic. (For \<open>tileSize = 0\<close> and a
  positive resolution JavaScript computes \<^verbatim>\<open>Infinity\<close>; \<^verbatim>\<open>validateConfig\<close> keeps that value
  away from the tiler.)
\<close>

definition tilesPerSide :: "int \<Rightarrow> int \<Rightarrow> int" where
  "tilesPerSide currentResolution tileSize =
     \<lceil>real_of_int currentResolution / real_of_int tileSize\<rceil>"

text \<open>The nested loops over \<open>y\<close> (outer) and \<open>x\<close> (inner) that fill \<^verbatim>\<open>tileCoords\<close>.\<close>

definition tileCoords :: "int \<Rightarrow> (int \<times> int) list" where
  "tileCoords n = concat (map (\<lambda>y. map (\<lambda>x. (x, y)) [0..n - 1]) [0..n - 1])"

definition generateFaceTiles ::
  "encoder \<Rightarrow> tiler \<Rightarrow> cube_face \<Rightarrow> int \<Rightarrow> int \<Rightarrow> (rat \<times> int) sink option \<Rightarrow> world \<Rightarrow>
   (error + tile list) \<times> world" where
  "generateFaceTiles enc this face tileSize maxLevel onProgress w =
    (let totalLevels = maxLevel in
     levelLoop
       (\<lambda>level currentCanvas currentResolution tiles w.
          let coords = tileCoords (tilesPerSide currentResolution tileSize) in
          batchLoop
            (\<lambda>(x, y). buildTile enc this currentCanvas currentResolution tileSize level
                         (face_name face) x y)
            (\<lambda>completedInLevel.
               let levelProgress =
                     (of_int (maxLevel - level)
                        + of_nat completedInLevel / of_nat (length coords))
                     / of_int totalLevels
               in callSink onProgress (levelProgress, level))
            coords 0 tiles w)
       maxLevel maxLevel (face_canvas face) (face_resolution face) [] w)"

text \<open>The loop over the faces in \<^verbatim>\<open>generateTilePyramid\<close>, with its \<open>faceIndex\<close> counter.\<close>

fun faceLoop ::
  "encoder \<Rightarrow> tiler \<Rightarrow> int \<Rightarrow> int \<Rightarrow> progress_info sink option \<Rightarrow> nat \<Rightarrow>
   cube_face list \<Rightarrow> nat \<Rightarrow> tile list \<Rightarrow> world \<Rightarrow> (error + tile list) \<times> world" where
  "faceLoop enc this tileSize maxLevel onProgress totalFaces [] faceIndex tiles w = (Inr tiles, w)"
| "faceLoop enc this tileSize maxLevel onProgress totalFaces (face # rest) faceIndex tiles w =
    (case generateFaceTiles enc this face tileSize maxLevel
            (Some (\<lambda>(levelProgress, level).
               let overall = (of_nat faceIndex + levelProgress) / of_nat totalFaces
               in callSink onProgress
                    \<lparr> p_stage = Tiling, p_progress = overall, p_currentLevel = Some level,
                      p_currentFace = Some (face_name face) \<rparr>))
            w of
       (Inl e, w') \<Rightarrow> (Inl e, w')
     | (Inr faceTiles, w') \<Rightarrow>
         faceLoop enc this tileSize maxLevel onProgress totalFaces rest (faceIndex + 1)
           (tiles @ faceTiles) w')"

definition generateTilePyramid ::
  "encoder \<Rightarrow> tiler \<Rightarrow> cube_face list \<Rightarrow> int \<Rightarrow> int \<Rightarrow> progress_info sink option \<Rightarrow>
   world \<Rightarrow> (error + tile list) \<times> world" where
  "generateTilePyramid enc this cubeFaces tileSize maxLevel onProgress w =
    (let totalFaces = length cubeFaces in
     case faceLoop enc this tileSize maxLevel onProgress totalFaces cubeFaces 0 [] w of
       (Inl e, w') \<Rightarrow> (Inl e, w')
     | (Inr tiles, w') \<Rightarrow>
         (case callSink onProgress
                 \<lparr> p_stage = Tiling, p_progress = 1, p_currentLevel = None,
                   p_currentFace = None \<rparr> w' of
            (Some e, w'') \<Rightarrow> (Inl e, w'')
          | (None, w'') \<Rightarrow> (Inr tiles, w'')))"

fun fallbackLoop ::
  "encoder \<Rightarrow> tiler \<Rightarrow> int \<Rightarrow> cube_face list \<Rightarrow> tile list \<Rightarrow> error + tile list" where
  "fallbackLoop enc this fallbackSize [] tiles = Inr tiles"
| "fallbackLoop enc this fallbackSize (face # rest) tiles =
    (case extractTile enc this (face_canvas face) 0 0 (face_resolution face)
            (face_resolution face) fallbackSize of
       Inl e \<Rightarrow> Inl e
     | Inr blob \<Rightarrow>
         fallbackLoop enc this fallbackSize rest
           (tiles @ [\<lparr> tile_path = ''fallback/'' @ face_name face @ ''.''
                                     @ (if tiler_imageFormat this = Webp then ''webp'' else ''jpg''),
                       tile_level = 0,
                       tile_face = face_name face,
                       tile_x = 0,
                       tile_y = 0,
                       tile_blob = blob,
                       tile_size = length blob \<rparr>]))"

definition generateFallbackTiles ::
  "encoder \<Rightarrow> tiler \<Rightarrow> cube_face list \<Rightarrow> int \<Rightarrow> error + tile list" where
  "generateFallbackTiles enc this cubeFaces fallbackSize =
     fallbackLoop enc this fallbackSize cubeFaces []"


subsection \<open>The browser and the platform\<close>

datatype source = Url string | BlobSource nat

text \<open>
  What the pipeline takes from its surroundings: the platform's \<^verbatim>\<open>MAX_TEXTURE_SIZE\<close>, the
  encoder behind \<^verbatim>\<open>extractTile\<close>, which \<^verbatim>\<open>dispose()\<close> calls throw, the outcome of
  \<^verbatim>\<open>loadImage\<close> (whose download-progress events run in the browser's own event handlers
  and are not modelled), whether the archive library fails, and the platform's value of
  \<^verbatim>\<open>Math.ceil(Math.log(c / e) / Math.log(2))\<close> (see \<open>calculateMaxLevel\<close>).
\<close>

record env =
  env_MAX_TEXTURE_SIZE :: int
  env_encode :: encoder
  env_dispose_fails :: "resource \<Rightarrow> bool"
  env_loadImage :: "source option \<Rightarrow> error + image"
  env_zip_fails :: bool
  env_ceilLog2 :: "int \<Rightarrow> int \<Rightarrow> int"

text \<open>Creating an object: it gets the next free number and is recorded as allocated.\<close>

definition create :: "kind \<Rightarrow> world \<Rightarrow> resource \<times> world" where
  "create k w = (let r = (k, length (allocated w)) in (r, w\<lparr>allocated := allocated w @ [r]\<rparr>))"

subsection \<open>Reprojection Engine (\<^verbatim>\<open>reprojector.ts\<close>)\<close>

definition FACE_CONFIGS :: "face_config list" where
  "FACE_CONFIGS =
    [\<lparr> fc_name = ''f'', fc_target = (0, 0, -1), fc_up = (0, 1, 0) \<rparr>,
     \<lparr> fc_name = ''r'', fc_target = (1, 0, 0), fc_up = (0, 1, 0) \<rparr>,
     \<lparr> fc_name = ''b'', fc_target = (0, 0, 1), fc_up = (0, 1, 0) \<rparr>,
     \<lparr> fc_name = ''l'', fc_target = (-1, 0, 0), fc_up = (0, 1, 0) \<rparr>,
     \<lparr> fc_name = ''u'', fc_target = (0, 1, 0), fc_up = (0, 0, 1) \<rparr>,
     \<lparr> fc_name = ''d'', fc_target = (0, -1, 0), fc_up = (0, 0, -1) \<rparr>]"

record reprojector =
  rp_maxTextureSize :: int

text \<open>\<^verbatim>\<open>this.maxTextureSize = maxTextureSize ?? 16384\<close>\<close>

definition new_Reprojector :: "int option \<Rightarrow> reprojector" where
  "new_Reprojector maxTextureSize =
     \<lparr> rp_maxTextureSize = (case maxTextureSize of None \<Rightarrow> 16384 | Some m \<Rightarrow> m) \<rparr>"

text \<open>
  The loop over \<open>FACE_CONFIGS\<close>: one progress call, one render and read-back, one new 2-D
  canvas per face.
\<close>

fun renderFaces ::
  "image \<Rightarrow> int \<Rightarrow> progress_info sink option \<Rightarrow> face_config list \<Rightarrow> nat \<Rightarrow> cube_face list \<Rightarrow>
   world \<Rightarrow> (error + cube_face list) \<times> world" where
  "renderFaces img cubeResolution onProgress [] i faces w = (Inr faces, w)"
| "renderFaces img cubeResolution onProgress (cfg # rest) i faces w =
    (case callSink onProgress
            \<lparr> p_stage = Reprojection,
              p_progress = of_nat i / of_nat (length FACE_CONFIGS),
              p_currentLevel = None, p_currentFace = Some (fc_name cfg) \<rparr> w of
       (Some e, w1) \<Rightarrow> (Inl e, w1)
     | (None, w1) \<Rightarrow>
         let (faceCanvas, w2) = create Canvas w1
         in renderFaces img cubeResolution onProgress rest (i + 1)
              (faces @ [\<lparr> face_name = fc_name cfg,
                          face_canvas = FaceCanvas img cfg cubeResolution,
                          face_resolution = cubeResolution \<rparr>]) w2)"

text \<open>
  \<^verbatim>\<open>reprojectToCubeFaces\<close>, in the order of the source: the canvas and the renderer are
  created and the renderer is registered; the limit is read from the renderer's context
  and checked; texture, geometry, material and render target are created and tracked; the
  faces are rendered; \<^verbatim>\<open>this.dispose()\<close> runs as the last statement before \<^verbatim>\<open>return\<close>.
\<close>

definition reprojectToCubeFaces ::
  "env \<Rightarrow> reprojector \<Rightarrow> image \<Rightarrow> int \<Rightarrow> progress_info sink option \<Rightarrow> world \<Rightarrow>
   (error + cube_face list) \<times> world" where
  "reprojectToCubeFaces env this img cubeResolution onProgress w0 =
    (let (cv, w1) = create Canvas w0;
         (rnd, w2) = create Renderer w1;
         w3 = w2\<lparr>memory := setRenderer rnd (memory w2)\<rparr>;
         maxSize = env_MAX_TEXTURE_SIZE env;
         effectiveMaxTexture = min maxSize (rp_maxTextureSize this)
     in if cubeResolution > effectiveMaxTexture
        then (Inl (CubeResolutionExceeds cubeResolution effectiveMaxTexture), w3)
        else
          let (texture, w4) = create Texture w3;
              w5 = w4\<lparr>memory := trackTexture texture (memory w4)\<rparr>;
              (geometry, w6) = create Geometry w5;
              w7 = w6\<lparr>memory := trackGeometry geometry (memory w6)\<rparr>;
              (material, w8) = create Material w7;
              w9 = w8\<lparr>memory := trackMaterial material (memory w8)\<rparr>;
              (renderTarget, w10) = create RenderTarget w9;
              w11 = w10\<lparr>memory := trackRenderTarget renderTarget (memory w10)\<rparr>
          in case renderFaces img cubeResolution onProgress FACE_CONFIGS 0 [] w11 of
               (Inl e, w12) \<Rightarrow> (Inl e, w12)
             | (Inr faces, w12) \<Rightarrow>
                 (case callSink onProgress
                         \<lparr> p_stage = Reprojection, p_progress = 1, p_currentLevel = None,
                           p_currentFace = None \<rparr> w12 of
                    (Some e, w13) \<Rightarrow> (Inl e, w13)
                  | (None, w13) \<Rightarrow>
                      (case disposeAll (env_dispose_fails env) w13 of
                         (Some e, w14) \<Rightarrow> (Inl e, w14)
                       | (None, w14) \<Rightarrow> (Inr faces, w14))))"

subsection \<open>The pipeline (\<^verbatim>\<open>PannellumTiler.ts\<close>)\<close>

record tiler_options =
  opt_maxTextureSize :: int
  opt_debug :: bool

record pannellum_tiler =
  options :: tiler_options
  progressListeners :: "progress_info callback list"
  errorListeners :: "error callback list"
  disposed :: bool

definition new_PannellumTiler :: "int option \<Rightarrow> bool option \<Rightarrow> pannellum_tiler" where
  "new_PannellumTiler maxTextureSize debug =
     \<lparr> options = \<lparr> opt_maxTextureSize = (case maxTextureSize of None \<Rightarrow> 16384 | Some m \<Rightarrow> m),
                   opt_debug = (case debug of None \<Rightarrow> False | Some d \<Rightarrow> d) \<rparr>,
       progressListeners = [], errorListeners = [], disposed = False \<rparr>"

record process_config =
  cfg_sourceImage :: "source option"
  cfg_tileSize :: "int option"
  cfg_maxLevel :: "int option"
  cfg_cubeResolution :: "int option"
  cfg_quality :: "rat option"
  cfg_output :: "string option"
  cfg_fallbackTiles :: "bool option"
  cfg_imageFormat :: "image_format option"
  cfg_onProgress :: "progress_info callback option"

record result_metadata =
  md_totalTiles :: nat
  md_totalSize :: nat
  md_maxLevel :: "int option"
  md_cubeResolution :: int
  md_tileSize :: int
  md_faces :: "string list"

datatype stream_item =
    ConfigItem string descriptor
  | TileItem string blob int string int int

datatype zip_entry = ConfigEntry descriptor | TileEntry blob

datatype process_result =
    ZipResult "(string \<times> zip_entry) list" result_metadata
  | RawResult descriptor "tile list" result_metadata
  | StreamResult descriptor "stream_item list" result_metadata

definition FACE_NAMES :: "string list" where
  "FACE_NAMES = [''f'', ''r'', ''b'', ''l'', ''u'', ''d'']"

text \<open>\<^verbatim>\<open>on\<close>, \<^verbatim>\<open>off\<close> and \<^verbatim>\<open>dispose\<close>\<close>

definition on_progress :: "progress_info callback \<Rightarrow> pannellum_tiler \<Rightarrow> pannellum_tiler" where
  "on_progress cb this = this\<lparr>progressListeners := set_add cb (progressListeners this)\<rparr>"

definition on_error :: "error callback \<Rightarrow> pannellum_tiler \<Rightarrow> pannellum_tiler" where
  "on_error cb this = this\<lparr>errorListeners := set_add cb (errorListeners this)\<rparr>"

definition off_progress :: "progress_info callback \<Rightarrow> pannellum_tiler \<Rightarrow> pannellum_tiler" where
  "off_progress cb this = this\<lparr>progressListeners := removeAll cb (progressListeners this)\<rparr>"

definition off_error :: "error callback \<Rightarrow> pannellum_tiler \<Rightarrow> pannellum_tiler" where
  "off_error cb this = this\<lparr>errorListeners := removeAll cb (errorListeners this)\<rparr>"

definition dispose :: "pannellum_tiler \<Rightarrow> pannellum_tiler" where
  "dispose this = this\<lparr>disposed := True, progressListeners := [], errorListeners := []\<rparr>"

text \<open>Calling one callback: the call is logged, and the callback throws or returns.\<close>

definition invoke ::
  "(string \<Rightarrow> 'a \<Rightarrow> invocation) \<Rightarrow> 'a callback \<Rightarrow> 'a \<Rightarrow> world \<Rightarrow> error option \<times> world" where
  "invoke mk cb data w =
     ((if cb_throws cb data then Some (CallbackError (cb_name cb)) else None),
      w\<lparr>calls := calls w @ [mk (cb_name cb) data]\<rparr>)"

text \<open>
  \<^verbatim>\<open>emit\<close>: \<^verbatim>\<open>for (const cb of callbacks) { try { cb(data) } catch { } }\<close>. A missing
  listener set is the empty list.
\<close>

fun emit :: "(string \<Rightarrow> 'a \<Rightarrow> invocation) \<Rightarrow> 'a callback list \<Rightarrow> 'a \<Rightarrow> world \<Rightarrow> world" where
  "emit mk [] data w = w"
| "emit mk (cb # cbs) data w =
     (case invoke mk cb data w of
        (Some e, w') \<Rightarrow> emit mk cbs data w'
      | (None, w') \<Rightarrow> emit mk cbs data w')"

text \<open>
  The unified progress broadcaster of \<^verbatim>\<open>process\<close>:
  \<^verbatim>\<open>onProgress?.(info); this.emit('progress', info);\<close>
\<close>

definition progressBroadcast ::
  "pannellum_tiler \<Rightarrow> progress_info callback option \<Rightarrow> progress_info sink" where
  "progressBroadcast this onProgress info w =
    (case (case onProgress of None \<Rightarrow> (None, w) | Some cb \<Rightarrow> invoke ProgressCall cb info w) of
       (Some e, w') \<Rightarrow> (Some e, w')
     | (None, w') \<Rightarrow> (None, emit ProgressCall (progressListeners this) info w'))"

definition validateConfig :: "process_config \<Rightarrow> error option" where
  "validateConfig config =
    (if cfg_sourceImage config = None \<or> cfg_sourceImage config = Some (Url []) then
       Some SourceImageRequired
     else if cfg_output config = None \<or> cfg_output config = Some [] then
       Some OutputModeRequired
     else if cfg_output config \<notin> {Some ''zip'', Some ''raw'', Some ''stream''} then
       Some (InvalidOutputMode (case cfg_output config of Some m \<Rightarrow> m | None \<Rightarrow> []))
     else if (case cfg_quality config of None \<Rightarrow> False | Some q \<Rightarrow> q < 0 \<or> q > 1) then
       Some QualityOutOfRange
     else if (case cfg_tileSize config of None \<Rightarrow> False | Some t \<Rightarrow> t < 1) then
       Some TileSizeNotPositive
     else None)"

text \<open>
  \<^verbatim>\<open>createZipOutput\<close>: \<^verbatim>\<open>files[tile.path] = ...\<close> replaces the entry of an equal path, or adds
  one; a progress call follows each tile.
\<close>

fun assign :: "string \<Rightarrow> zip_entry \<Rightarrow> (string \<times> zip_entry) list \<Rightarrow> (string \<times> zip_entry) list" where
  "assign k v [] = [(k, v)]"
| "assign k v (p # ps) = (if fst p = k then (k, v) # ps else p # assign k v ps)"

fun zipLoop ::
  "rat sink option \<Rightarrow> nat \<Rightarrow> tile list \<Rightarrow> nat \<Rightarrow> (string \<times> zip_entry) list \<Rightarrow> world \<Rightarrow>
   (error + (string \<times> zip_entry) list) \<times> world" where
  "zipLoop onProgress totalN [] i files w = (Inr files, w)"
| "zipLoop onProgress totalN (t # rest) i files w =
    (let files' = assign (tile_path t) (TileEntry (tile_blob t)) files in
     case callSink onProgress (of_nat (i + 1) / of_nat totalN) w of
       (Some e, w') \<Rightarrow> (Inl e, w')
     | (None, w') \<Rightarrow> zipLoop onProgress totalN rest (i + 1) files' w')"

definition createZipOutput ::
  "env \<Rightarrow> tile list \<Rightarrow> descriptor \<Rightarrow> rat sink option \<Rightarrow> world \<Rightarrow>
   (error + (string \<times> zip_entry) list) \<times> world" where
  "createZipOutput env tiles configJson onProgress w =
    (case zipLoop onProgress (length tiles) tiles 0 [(''config.json'', ConfigEntry configJson)] w of
       (Inl e, w') \<Rightarrow> (Inl e, w')
     | (Inr files, w') \<Rightarrow> (if env_zip_fails env then (Inl ZipError, w') else (Inr files, w')))"

definition buildZipResult ::
  "env \<Rightarrow> tile list \<Rightarrow> descriptor \<Rightarrow> result_metadata \<Rightarrow> progress_info sink \<Rightarrow> world \<Rightarrow>
   (error + process_result) \<times> world" where
  "buildZipResult env tiles configJson metadata progress w =
    (case progress \<lparr> p_stage = Packaging, p_progress = 0, p_currentLevel = None,
                     p_currentFace = None \<rparr> w of
       (Some e, w1) \<Rightarrow> (Inl e, w1)
     | (None, w1) \<Rightarrow>
    (case createZipOutput env tiles configJson
            (Some (\<lambda>p. progress \<lparr> p_stage = Packaging, p_progress = p, p_currentLevel = None,
                                  p_currentFace = None \<rparr>)) w1 of
       (Inl e, w2) \<Rightarrow> (Inl e, w2)
     | (Inr zipped, w2) \<Rightarrow>
    (case progress \<lparr> p_stage = Packaging, p_progress = 1, p_currentLevel = None,
                     p_currentFace = None \<rparr> w2 of
       (Some e, w3) \<Rightarrow> (Inl e, w3)
     | (None, w3) \<Rightarrow> (Inr (ZipResult zipped metadata), w3))))"

definition buildRawResult :: "tile list \<Rightarrow> descriptor \<Rightarrow> result_metadata \<Rightarrow> process_result" where
  "buildRawResult tiles configJson metadata = RawResult configJson tiles metadata"

text \<open>
  \<^verbatim>\<open>createTileStream\<close>: the items the generator yields when it is run to its end.
\<close>

definition createTileStream :: "tile list \<Rightarrow> descriptor \<Rightarrow> stream_item list" where
  "createTileStream tiles configJson =
     ConfigItem ''config.json'' configJson
     # map (\<lambda>t. TileItem (tile_path t) (tile_blob t) (tile_level t) (tile_face t)
                         (tile_x t) (tile_y t)) tiles"

definition buildStreamResult :: "tile list \<Rightarrow> descriptor \<Rightarrow> result_metadata \<Rightarrow> process_result" where
  "buildStreamResult tiles configJson metadata =
     StreamResult configJson (createTileStream tiles configJson) metadata"

text \<open>
  The \<^verbatim>\<open>try\<close> block of \<^verbatim>\<open>process\<close>, in two parts. \<open>processStages\<close> is the block up to
  the \<^verbatim>\<open>switch\<close>: it returns \<^verbatim>\<open>allTiles\<close>, \<^verbatim>\<open>configJson\<close> and \<^verbatim>\<open>metadata\<close>. \<open>processTry\<close>
  adds the \<^verbatim>\<open>switch (output)\<close>. When \<open>maxLevel\<close> is \<^verbatim>\<open>NaN\<close> the tiler's loop test
  \<^verbatim>\<open>level >= 1\<close> is false at once, as it is for 0; that is the level handed to the tiler
  then.
\<close>

definition processStages ::
  "env \<Rightarrow> pannellum_tiler \<Rightarrow> process_config \<Rightarrow> world \<Rightarrow>
   (error + tile list \<times> descriptor \<times> result_metadata) \<times> world" where
  "processStages env this config w0 =
    (let tileSize = (case cfg_tileSize config of None \<Rightarrow> 512 | Some v \<Rightarrow> v);
         quality = (case cfg_quality config of None \<Rightarrow> 9 / 10 | Some v \<Rightarrow> v);
         fallbackTiles = (case cfg_fallbackTiles config of None \<Rightarrow> False | Some v \<Rightarrow> v);
         imageFormat = (case cfg_imageFormat config of None \<Rightarrow> Jpeg | Some v \<Rightarrow> v);
         progress = progressBroadcast this (cfg_onProgress config)
     in
     case progress \<lparr> p_stage = Loading, p_progress = 0, p_currentLevel = None,
                     p_currentFace = None \<rparr> w0 of
       (Some e, w1) \<Rightarrow> (Inl e, w1)
     | (None, w1) \<Rightarrow>
    (case env_loadImage env (cfg_sourceImage config) of
       Inl e \<Rightarrow> (Inl e, w1)
     | Inr img \<Rightarrow>
    (case progress \<lparr> p_stage = Loading, p_progress = 1, p_currentLevel = None,
                     p_currentFace = None \<rparr> w1 of
       (Some e, w2) \<Rightarrow> (Inl e, w2)
     | (None, w2) \<Rightarrow>
    let cubeResolution =
          (case cfg_cubeResolution config of
             Some c \<Rightarrow> c
           | None \<Rightarrow> calculateCubeResolution (naturalWidth img) (naturalHeight img));
        maxLevel =
          (case cfg_maxLevel config of
             Some m \<Rightarrow> Some m
           | None \<Rightarrow> calculateMaxLevel (env_ceilLog2 env) cubeResolution tileSize);
        reprojector = new_Reprojector (Some (opt_maxTextureSize (options this)));
        w3 = w2\<lparr>memory := new_MemoryManager\<rparr>
    in
    (case reprojectToCubeFaces env reprojector img cubeResolution (Some progress) w3 of
       (Inl e, w4) \<Rightarrow> (Inl e, w4)
     | (Inr cubeFaces, w4) \<Rightarrow>
    let tiler = new_Tiler quality imageFormat in
    (case generateTilePyramid (env_encode env) tiler cubeFaces tileSize
            (case maxLevel of Some m \<Rightarrow> m | None \<Rightarrow> 0) (Some progress) w4 of
       (Inl e, w5) \<Rightarrow> (Inl e, w5)
     | (Inr tiles, w5) \<Rightarrow>
    (case (if fallbackTiles then generateFallbackTiles (env_encode env) tiler cubeFaces 1024
           else Inr []) of
       Inl e \<Rightarrow> (Inl e, w5)
     | Inr fallbackTilesList \<Rightarrow>
    let allTiles = tiles @ fallbackTilesList;
        configJson = generateConfig
          \<lparr> tm_tileSize = tileSize, tm_maxLevel = maxLevel, tm_cubeResolution = cubeResolution,
            tm_imageFormat = imageFormat, tm_hasFallback = fallbackTiles \<rparr>;
        metadata =
          \<lparr> md_totalTiles = length allTiles,
            md_totalSize = foldl (\<lambda>sum t. sum + tile_size t) 0 allTiles,
            md_maxLevel = maxLevel,
            md_cubeResolution = cubeResolution,
            md_tileSize = tileSize,
            md_faces = FACE_NAMES \<rparr>
    in (Inr (allTiles, configJson, metadata), w5)))))))"

definition processTry ::
  "env \<Rightarrow> pannellum_tiler \<Rightarrow> process_config \<Rightarrow> world \<Rightarrow> (error + process_result) \<times> world" where
  "processTry env this config w0 =
    (let output = cfg_output config;
         progress = progressBroadcast this (cfg_onProgress config)
     in case processStages env this config w0 of
          (Inl e, w5) \<Rightarrow> (Inl e, w5)
        | (Inr (allTiles, configJson, metadata), w5) \<Rightarrow>
            if output = Some ''zip'' then
              buildZipResult env allTiles configJson metadata progress w5
            else if output = Some ''raw'' then
              (Inr (buildRawResult allTiles configJson metadata), w5)
            else if output = Some ''stream'' then
              (Inr (buildStreamResult allTiles configJson metadata), w5)
            else (Inl (UnknownOutputMode (case output of Some m \<Rightarrow> m | None \<Rightarrow> [])), w5))"

text \<open>
  \<^verbatim>\<open>process\<close>: the disposal check and \<^verbatim>\<open>validateConfig\<close> come before the \<^verbatim>\<open>try\<close>; the
  \<^verbatim>\<open>catch\<close> emits the error to the error listeners and throws it again.
\<close>

definition process ::
  "env \<Rightarrow> pannellum_tiler \<Rightarrow> process_config \<Rightarrow> world \<Rightarrow> (error + process_result) \<times> world" where
  "process env this config w =
    (if disposed this then (Inl Disposed, w)
     else case validateConfig config of
            Some e \<Rightarrow> (Inl e, w)
          | None \<Rightarrow>
              (case processTry env this config w of
                 (Inl err, w') \<Rightarrow> (Inl err, emit ErrorCall (errorListeners this) err w')
               | (Inr result, w') \<Rightarrow> (Inr result, w')))"


subsection \<open>Notions used in the statements\<close>

text \<open>
  The raster and the resolution the level loop works on after \<open>n\<close> steps below \<open>maxLevel\<close>,
  and so at a given level of a face.
\<close>

fun halvings :: "nat \<Rightarrow> canvas \<Rightarrow> int \<Rightarrow> canvas \<times> int" where
  "halvings 0 cv r = (cv, r)"
| "halvings (Suc n) cv r = halvings n (downscaleCanvas cv (r div 2)) (r div 2)"

definition levelRaster :: "cube_face \<Rightarrow> int \<Rightarrow> int \<Rightarrow> canvas \<times> int" where
  "levelRaster face maxLevel level =
     halvings (nat (maxLevel - level)) (face_canvas face) (face_resolution face)"

text \<open>
  The calls of \<open>buildTile\<close> for one level of one face, row by row, and for a whole face,
  from \<open>maxLevel\<close> down to 1.
\<close>

definition levelBuilds ::
  "encoder \<Rightarrow> tiler \<Rightarrow> int \<Rightarrow> int \<Rightarrow> cube_face \<Rightarrow> int \<Rightarrow> (error + tile) list" where
  "levelBuilds enc this tileSize maxLevel face level =
     map (\<lambda>(x, y). buildTile enc this (fst (levelRaster face maxLevel level))
                      (snd (levelRaster face maxLevel level)) tileSize level (face_name face) x y)
         (tileCoords (tilesPerSide (snd (levelRaster face maxLevel level)) tileSize))"

definition faceBuilds :: "encoder \<Rightarrow> tiler \<Rightarrow> int \<Rightarrow> int \<Rightarrow> cube_face \<Rightarrow> (error + tile) list" where
  "faceBuilds enc this tileSize maxLevel face =
     concat (map (levelBuilds enc this tileSize maxLevel face) (rev [1..maxLevel]))"

text \<open>
  The path invariant of the specification: \<open>{level}/{face}/{column}_{row}.{ext}\<close> from the
  tile's own fields, and \<open>fallback/{face}.{ext}\<close>, with \<open>jpg\<close> for jpeg and \<open>webp\<close> for webp.
\<close>

definition tilePath :: "image_format \<Rightarrow> tile \<Rightarrow> string" where
  "tilePath fmt tle =
     showInt (tile_level tle) @ ''/'' @ tile_face tle @ ''/'' @ showInt (tile_x tle) @ ''_''
       @ showInt (tile_y tle) @ ''.'' @ (case fmt of Jpeg \<Rightarrow> ''jpg'' | Webp \<Rightarrow> ''webp'')"

definition fallbackPath :: "image_format \<Rightarrow> string \<Rightarrow> string" where
  "fallbackPath fmt face =
     ''fallback/'' @ face @ ''.'' @ (case fmt of Jpeg \<Rightarrow> ''jpg'' | Webp \<Rightarrow> ''webp'')"

text \<open>
  The order of the specification: face-major over the given face names, levels descending
  from \<open>maxLevel\<close> to 1 within a face, rows from top to bottom and columns from left to
  right within a level. An entry is (face, level, column, row).
\<close>

definition pyramidOrder :: "string list \<Rightarrow> int \<Rightarrow> int \<Rightarrow> int \<Rightarrow> (string \<times> int \<times> int \<times> int) list" where
  "pyramidOrder faceNames cubeResolution tileSize maxLevel =
     concat (map (\<lambda>f.
       concat (map (\<lambda>l.
         concat (map (\<lambda>y.
           map (\<lambda>x. (f, l, x, y))
             [0..tilesPerSide (cubeResolution div 2 ^ nat (maxLevel - l)) tileSize - 1])
           [0..tilesPerSide (cubeResolution div 2 ^ nat (maxLevel - l)) tileSize - 1]))
         (rev [1..maxLevel])))
       faceNames)"

definition tileKey :: "tile \<Rightarrow> string \<times> int \<times> int \<times> int" where
  "tileKey tle = (tile_face tle, tile_level tle, tile_x tle, tile_y tle)"

text \<open>The (face, level, column, row) of the tile items of a stream, in order.\<close>

fun itemKeys :: "stream_item list \<Rightarrow> (string \<times> int \<times> int \<times> int) list" where
  "itemKeys [] = []"
| "itemKeys (ConfigItem p d # items) = itemKeys items"
| "itemKeys (TileItem p b l f x y # items) = (f, l, x, y) # itemKeys items"

subsection \<open>Sample inputs\<close>

definition sample_image :: image where
  "sample_image = \<lparr> naturalWidth = 8, naturalHeight = 4 \<rparr>"

definition sample_face :: "int \<Rightarrow> cube_face" where
  "sample_face res =
     \<lparr> face_name = ''f'',
       face_canvas = FaceCanvas sample_image
                       \<lparr> fc_name = ''f'', fc_target = (0, 0, -1), fc_up = (0, 1, 0) \<rparr> res,
       face_resolution = res \<rparr>"

text \<open>An encoder that never fails: one byte for a fallback-sized output, none otherwise.\<close>

definition sample_encoder :: encoder where
  "sample_encoder rq = (if rq_outputSize rq = 1024 then Some [1] else Some [])"

definition sample_tiler :: tiler where
  "sample_tiler = new_Tiler (9 / 10) Jpeg"

text \<open>Everything the tracker holds, in the order in which \<open>disposeAll\<close> visits it.\<close>

definition tracked :: "memory_manager \<Rightarrow> resource list" where
  "tracked mm = textures mm @ geometries mm @ materials mm @ renderTargets mm
                 @ (case renderer mm of None \<Rightarrow> [] | Some r \<Rightarrow> [r])"

text \<open>A state with one tracked texture and one tracked geometry, and two behaviours of \<^verbatim>\<open>dispose()\<close>.\<close>

definition leaky_world :: world where
  "leaky_world =
     new_world\<lparr>memory := trackGeometry (Geometry, 1) (trackTexture (Texture, 0) new_MemoryManager),
               allocated := [(Texture, 0), (Geometry, 1)]\<rparr>"

definition texture_dispose_fails :: "resource \<Rightarrow> bool" where
  "texture_dispose_fails r = (fst r = Texture)"

definition no_dispose_fails :: "resource \<Rightarrow> bool" where
  "no_dispose_fails r = False"

text \<open>
  A platform logarithm for the sample platform. \<open>ceilSteps c e\<close> is the least \<open>k\<close> with
  \<open>c \<le> e * 2^k\<close>, that is the exact \<open>ceil(log2(c / e))\<close> for \<open>1 \<le> e \<le> c\<close>. The sample platform
  delivers it everywhere but at (2251799813685247, 1), where IEEE double arithmetic gives
  \<^verbatim>\<open>Math.log(2251799813685247) / Math.log(2) = 51.00000000000001\<close> and so the ceiling 52,
  while \<open>2^50 < 2251799813685247 < 2^51\<close>.
\<close>

function ceilSteps :: "int \<Rightarrow> int \<Rightarrow> int" where
  "ceilSteps c p = (if c \<le> p \<or> p \<le> 0 then 0 else 1 + ceilSteps c (2 * p))"
  by pat_completeness auto
termination by (relation "measure (\<lambda>(c, p). nat (c - p))") auto

declare ceilSteps.simps [simp del]

definition sample_ceilLog2 :: "int \<Rightarrow> int \<Rightarrow> int" where
  "sample_ceilLog2 c e = (if c = 2251799813685247 \<and> e = 1 then 52 else ceilSteps c e)"

text \<open>
  A platform with a texture limit of 16384 on which nothing fails, a tiler instance with
  the default options, and a small request: one tile per face and level, raw output.
\<close>

definition sample_env :: env where
  "sample_env =
     \<lparr> env_MAX_TEXTURE_SIZE = 16384,
       env_encode = sample_encoder,
       env_dispose_fails = no_dispose_fails,
       env_loadImage = (\<lambda>src. Inr sample_image),
       env_zip_fails = False,
       env_ceilLog2 = sample_ceilLog2 \<rparr>"

definition sample_config :: process_config where
  "sample_config =
     \<lparr> cfg_sourceImage = Some (BlobSource 0),
       cfg_tileSize = Some 1,
       cfg_maxLevel = Some 1,
       cfg_cubeResolution = Some 1,
       cfg_quality = None,
       cfg_output = Some ''raw'',
       cfg_fallbackTiles = None,
       cfg_imageFormat = None,
       cfg_onProgress = None \<rparr>"

text \<open>
  Callbacks for the events: a per-call \<^verbatim>\<open>onProgress\<close> that always throws, and two listeners
  that never throw, registered with \<^verbatim>\<open>on('progress', ...)\<close> and \<^verbatim>\<open>on('error', ...)\<close>.
\<close>

definition throwing_onProgress :: "progress_info callback" where
  "throwing_onProgress = \<lparr> cb_name = ''onProgress'', cb_throws = (\<lambda>info. True) \<rparr>"

definition progress_listener :: "progress_info callback" where
  "progress_listener = \<lparr> cb_name = ''progressListener'', cb_throws = (\<lambda>info. False) \<rparr>"

definition error_listener :: "error callback" where
  "error_listener = \<lparr> cb_name = ''errorListener'', cb_throws = (\<lambda>err. False) \<rparr>"

definition listening_tiler :: pannellum_tiler where
  "listening_tiler =
     on_error error_listener (on_progress progress_listener (new_PannellumTiler None None))"

text \<open>A progress sink that never throws.\<close>

definition quiet :: "'a sink option \<Rightarrow> bool" where
  "quiet s = (\<forall>info w. fst (callSink s info w) = None)"

text \<open>The six faces the reprojector returns for an image and a resolution.\<close>

definition cubeFaces :: "image \<Rightarrow> int \<Rightarrow> cube_face list" where
  "cubeFaces img cubeResolution =
     map (\<lambda>cfg. \<lparr> face_name = fc_name cfg,
                  face_canvas = FaceCanvas img cfg cubeResolution,
                  face_resolution = cubeResolution \<rparr>) FACE_CONFIGS"

text \<open>
  The values \<^verbatim>\<open>process\<close> destructures from its configuration, with their defaults, and the
  cube resolution it settles on for a loaded image.
\<close>

definition tileSizeOf :: "process_config \<Rightarrow> int" where
  "tileSizeOf config = (case cfg_tileSize config of None \<Rightarrow> 512 | Some v \<Rightarrow> v)"

definition tilerOf :: "process_config \<Rightarrow> tiler" where
  "tilerOf config =
     new_Tiler (case cfg_quality config of None \<Rightarrow> 9 / 10 | Some v \<Rightarrow> v)
               (case cfg_imageFormat config of None \<Rightarrow> Jpeg | Some v \<Rightarrow> v)"

definition fallbackOf :: "process_config \<Rightarrow> bool" where
  "fallbackOf config = (case cfg_fallbackTiles config of None \<Rightarrow> False | Some v \<Rightarrow> v)"

definition cubeResolutionOf :: "process_config \<Rightarrow> image \<Rightarrow> int" where
  "cubeResolutionOf config img =
     (case cfg_cubeResolution config of
        Some c \<Rightarrow> c
      | None \<Rightarrow> calculateCubeResolution (naturalWidth img) (naturalHeight img))"

text \<open>The level handed to the tiler for a level count that may be \<^verbatim>\<open>NaN\<close>.\<close>

definition levelOf :: "int option \<Rightarrow> int" where
  "levelOf maxLevel = (case maxLevel of Some m \<Rightarrow> m | None \<Rightarrow> 0)"

text \<open>The stream item of a tile, as \<^verbatim>\<open>createTileStream\<close> builds it.\<close>

definition tileItem :: "tile \<Rightarrow> stream_item" where
  "tileItem t = TileItem (tile_path t) (tile_blob t) (tile_level t) (tile_face t)
                         (tile_x t) (tile_y t)"

text \<open>The archive entry of a tile, as \<^verbatim>\<open>createZipOutput\<close> writes it.\<close>

definition tileEntry :: "tile \<Rightarrow> string \<times> zip_entry" where
  "tileEntry t = (tile_path t, TileEntry (tile_blob t))"

text \<open>The stream of a finished call; empty when the call failed or was not in stream mode.\<close>

definition streamOf :: "(error + process_result) \<times> world \<Rightarrow> stream_item list" where
  "streamOf r = (case fst r of Inr (StreamResult d items md) \<Rightarrow> items | _ \<Rightarrow> [])"

text \<open>The sample request with fallback tiles, in raw, stream and zip mode.\<close>

definition fallback_config :: process_config where
  "fallback_config = sample_config\<lparr>cfg_fallbackTiles := Some True\<rparr>"

definition stream_fallback_config :: process_config where
  "stream_fallback_config = fallback_config\<lparr>cfg_output := Some ''stream''\<rparr>"

definition zip_fallback_config :: process_config where
  "zip_fallback_config = fallback_config\<lparr>cfg_output := Some ''zip''\<rparr>"






section \<open>Level count\<close>

subsection \<open>The logarithm on integer ratios\<close>








subsection \<open>The level count from the delivered logarithm\<close>











lemma rev_upto_step: "1 \<le> (level::int) \<Longrightarrow> rev [1..level] = level # rev [1..level - 1]"
  by (simp add: upto_rec2)

lemma div2_div_pow2: "(r::int) div 2 div 2 ^ n = r div 2 ^ Suc n"
  by (simp add: zdiv_zmult2_eq)











subsection \<open>The sample platform's logarithm\<close>










section \<open>The tile pyramid\<close>

subsection \<open>Batches\<close>

lemma promiseAll_Inr_iff: "promiseAll ps = Inr vs \<longleftrightarrow> ps = map Inr vs"
proof (induction ps arbitrary: vs)
  case Nil
  then show ?case by auto
next
  case (Cons p ps)
  show ?case
  proof (cases p)
    case (Inl e)
    then show ?thesis by (cases vs) auto
  next
    case (Inr v)
    show ?thesis
    proof (cases "promiseAll ps")
      case (Inl e)
      then have "\<And>us. ps \<noteq> map Inr us" using Cons.IH by (metis sum.distinct(1))
      then show ?thesis using Inr Inl by (cases vs) auto
    next
      case r: (Inr us)
      then have "ps = map Inr us" using Cons.IH by simp
      then show ?thesis using Inr r by (cases vs) (auto simp: inj_map_eq_map)
    qed
  qed
qed

lemma batchLoop_Inr:
  "batchLoop build report coords i tiles w = (Inr ts, w') \<Longrightarrow>
   \<exists>bs. map build (drop i coords) = map Inr bs \<and> ts = tiles @ bs"
proof (induction build report coords i tiles w rule: batchLoop.induct)
  case (1 build report coords i tiles w)
  show ?case
  proof (cases "i < length coords")
    case False
    then show ?thesis using "1.prems" by (simp add: batchLoop.simps)
  next
    case True
    let ?batch = "take TILE_BATCH_SIZE (drop i coords)"
    from "1.prems" True obtain batchResults where
      pa: "promiseAll (map build ?batch) = Inr batchResults"
      by (subst (asm) batchLoop.simps) (auto simp: Let_def split: sum.splits)
    from "1.prems" True pa obtain w1 where
      rep: "report (min (i + TILE_BATCH_SIZE) (length coords)) w = (None, w1)"
      and rec: "batchLoop build report coords (i + TILE_BATCH_SIZE) (tiles @ batchResults) w1
                  = (Inr ts, w')"
      by (subst (asm) batchLoop.simps) (auto simp: Let_def split: prod.splits option.splits)
    from "1.IH"[OF True refl pa refl refl rep[symmetric] refl rec]
    obtain bs where bs: "map build (drop (i + TILE_BATCH_SIZE) coords) = map Inr bs"
      and ts: "ts = (tiles @ batchResults) @ bs" by blast
    have b: "map build ?batch = map Inr batchResults" using pa by (simp add: promiseAll_Inr_iff)
    have "drop i coords = ?batch @ drop TILE_BATCH_SIZE (drop i coords)"
      by (rule append_take_drop_id[symmetric])
    then have "drop i coords = ?batch @ drop (i + TILE_BATCH_SIZE) coords"
      by (simp only: drop_drop add.commute)
    then have "map build (drop i coords) = map Inr (batchResults @ bs)"
      using b bs by (metis map_append)
    then show ?thesis using ts by auto
  qed
qed


subsection \<open>Levels\<close>

lemma snd_halvings: "snd (halvings n cv r) = r div 2 ^ n"
proof (induction n arbitrary: cv r)
  case 0
  then show ?case by simp
next
  case (Suc n)
  have "r div 2 div 2 ^ n = r div 2 ^ Suc n" by (rule div2_div_pow2)
  then show ?case using Suc by simp
qed

lemma levelLoop_below:
  assumes body: "\<And>l cv r acc w acc' w'.
      body l cv r acc w = (Inr acc', w') \<Longrightarrow> \<phi> acc' = \<phi> acc @ K l cv r"
  shows "level < m \<Longrightarrow> levelLoop body m level cv r acc w = (Inr ts, w') \<Longrightarrow>
     \<phi> ts = \<phi> acc @ concat (map (\<lambda>l. case halvings (nat (level - l + 1)) cv r of
                                        (c, rr) \<Rightarrow> K l c rr) (rev [1..level]))"
proof (induction "nat level" arbitrary: level cv r acc w)
  case 0
  then have "level \<le> 0" by simp
  then show ?case using "0.prems"(2) by (simp add: levelLoop.simps)
next
  case (Suc n)
  then have l1: "1 \<le> level" and n: "n = nat (level - 1)" and lt: "level - 1 < m" by auto
  let ?cv = "downscaleCanvas cv (r div 2)"
  from Suc.prems l1 obtain acc1 w1 where
    b: "body level ?cv (r div 2) acc w = (Inr acc1, w1)"
    and rec: "levelLoop body m (level - 1) ?cv (r div 2) acc1 w1 = (Inr ts, w')"
    by (subst (asm) levelLoop.simps) (auto simp: Let_def split: prod.splits sum.splits)
  have IH: "\<phi> ts = \<phi> acc1 @ concat (map (\<lambda>l. case halvings (nat (level - 1 - l + 1)) ?cv (r div 2) of
                                        (c, rr) \<Rightarrow> K l c rr) (rev [1..level - 1]))"
    using Suc.hyps(1)[OF n lt rec] .
  have m: "map (\<lambda>l. case halvings (nat (level - 1 - l + 1)) ?cv (r div 2) of (c, rr) \<Rightarrow> K l c rr)
               (rev [1..level - 1])
         = map (\<lambda>l. case halvings (nat (level - l + 1)) cv r of (c, rr) \<Rightarrow> K l c rr)
               (rev [1..level - 1])"
  proof (rule map_cong[OF refl])
    fix l assume "l \<in> set (rev [1..level - 1])"
    then have "l \<le> level - 1" by simp
    then have "nat (level - l + 1) = Suc (nat (level - 1 - l + 1))" by simp
    then show "(case halvings (nat (level - 1 - l + 1)) ?cv (r div 2) of (c, rr) \<Rightarrow> K l c rr)
             = (case halvings (nat (level - l + 1)) cv r of (c, rr) \<Rightarrow> K l c rr)"
      by simp
  qed
  have r: "rev [1..level] = level # rev [1..level - 1]" using l1 by (rule rev_upto_step)
  show ?case
    unfolding IH m r body[OF b] by simp
qed

lemma levelLoop_all:
  assumes body: "\<And>l cv r acc w acc' w'.
      body l cv r acc w = (Inr acc', w') \<Longrightarrow> \<phi> acc' = \<phi> acc @ K l cv r"
    and run: "levelLoop body m m cv r acc w = (Inr ts, w')"
  shows "\<phi> ts = \<phi> acc @ concat (map (\<lambda>l. case halvings (nat (m - l)) cv r of
                                        (c, rr) \<Rightarrow> K l c rr) (rev [1..m]))"
proof (cases "1 \<le> m")
  case False
  then show ?thesis using run by (simp add: levelLoop.simps)
next
  case True
  from run True obtain acc1 w1 where
    b: "body m cv r acc w = (Inr acc1, w1)"
    and rec: "levelLoop body m (m - 1) cv r acc1 w1 = (Inr ts, w')"
    by (subst (asm) levelLoop.simps) (auto simp: Let_def split: prod.splits sum.splits)
  have below: "\<phi> ts = \<phi> acc1 @ concat (map (\<lambda>l. case halvings (nat (m - 1 - l + 1)) cv r of
                                        (c, rr) \<Rightarrow> K l c rr) (rev [1..m - 1]))"
    by (rule levelLoop_below[where body = body, OF body _ rec]) simp_all
  have m: "map (\<lambda>l. case halvings (nat (m - 1 - l + 1)) cv r of (c, rr) \<Rightarrow> K l c rr)
               (rev [1..m - 1])
         = map (\<lambda>l. case halvings (nat (m - l)) cv r of (c, rr) \<Rightarrow> K l c rr) (rev [1..m - 1])"
    by (rule map_cong[OF refl]) simp
  have r: "rev [1..m] = m # rev [1..m - 1]" using True by (rule rev_upto_step)
  show ?thesis
    unfolding below m r body[OF b] by simp
qed

lemma generateFaceTiles_builds:
  assumes "generateFaceTiles enc this face tileSize maxLevel onProgress w = (Inr ts, w')"
  shows "map Inr ts = faceBuilds enc this tileSize maxLevel face"
proof -
  let ?K = "\<lambda>l cv r. map (\<lambda>(x, y). buildTile enc this cv r tileSize l (face_name face) x y)
                        (tileCoords (tilesPerSide r tileSize))"
  have "map Inr ts = map Inr [] @ concat (map (\<lambda>l.
          case halvings (nat (maxLevel - l)) (face_canvas face) (face_resolution face) of
            (c, rr) \<Rightarrow> ?K l c rr) (rev [1..maxLevel]))"
  proof (rule levelLoop_all[where \<phi> = "map Inr" and K = ?K,
                            OF _ assms[unfolded generateFaceTiles_def Let_def]])
    fix l cv r acc w acc' w'
    assume "batchLoop (\<lambda>(x, y). buildTile enc this cv r tileSize l (face_name face) x y)
              (\<lambda>completedInLevel. callSink onProgress
                  ((of_int (maxLevel - l) + of_nat completedInLevel
                      / of_nat (length (tileCoords (tilesPerSide r tileSize)))) / of_int maxLevel, l))
              (tileCoords (tilesPerSide r tileSize)) 0 acc w = (Inr acc', w')"
    from batchLoop_Inr[OF this] show "map Inr acc' = map Inr acc @ ?K l cv r"
      by auto
  qed
  then show ?thesis
    by (simp add: faceBuilds_def levelBuilds_def[abs_def] levelRaster_def case_prod_beta)
qed


subsection \<open>Faces\<close>

lemma faceLoop_builds:
  "faceLoop enc this tileSize maxLevel onProgress totalFaces faces faceIndex tiles w = (Inr ts, w')
   \<Longrightarrow> map Inr ts = map Inr tiles @ concat (map (faceBuilds enc this tileSize maxLevel) faces)"
proof (induction faces arbitrary: faceIndex tiles w)
  case Nil
  then show ?case by simp
next
  case (Cons face rest)
  from Cons.prems obtain faceTiles w1 where
    g: "generateFaceTiles enc this face tileSize maxLevel
          (Some (\<lambda>(levelProgress, level).
               let overall = (of_nat faceIndex + levelProgress) / of_nat totalFaces
               in callSink onProgress
                    \<lparr> p_stage = Tiling, p_progress = overall, p_currentLevel = Some level,
                      p_currentFace = Some (face_name face) \<rparr>)) w = (Inr faceTiles, w1)"
    and rec: "faceLoop enc this tileSize maxLevel onProgress totalFaces rest (faceIndex + 1)
                (tiles @ faceTiles) w1 = (Inr ts, w')"
    by (auto split: prod.splits sum.splits)
  show ?case
    using Cons.IH[OF rec] generateFaceTiles_builds[OF g] by simp
qed

lemma generateTilePyramid_builds:
  assumes "generateTilePyramid enc this faces tileSize maxLevel onProgress w = (Inr ts, w')"
  shows "map Inr ts = concat (map (faceBuilds enc this tileSize maxLevel) faces)"
proof -
  from assms obtain w1 where
    "faceLoop enc this tileSize maxLevel onProgress (length faces) faces 0 [] w = (Inr ts, w1)"
    unfolding generateTilePyramid_def Let_def
    by (auto split: prod.splits sum.splits option.splits)
  from faceLoop_builds[OF this] show ?thesis by simp
qed

lemma buildTile_fields:
  assumes "buildTile enc this cv r tileSize level faceName x y = Inr tle"
  shows "tile_level tle = level" and "tile_face tle = faceName" and "tile_x tle = x"
    and "tile_y tle = y" and "tile_path tle = tilePath (tiler_imageFormat this) tle"
    and "tile_size tle = length (tile_blob tle)"
    and "enc \<lparr> rq_source = cv, rq_sx = x * tileSize, rq_sy = y * tileSize,
               rq_sw = min tileSize (r - x * tileSize), rq_sh = min tileSize (r - y * tileSize),
               rq_outputSize = tileSize,
               rq_mimeType = (if tiler_imageFormat this = Webp then ''image/webp''
                              else ''image/jpeg''),
               rq_quality = tiler_quality this \<rparr> = Some (tile_blob tle)"
  using assms
  by (auto simp: buildTile_def extractTile_def tilePath_def Let_def
           split: sum.splits option.splits image_format.splits)

lemma faceBuilds_member:
  assumes "Inr tle \<in> set (faceBuilds enc this tileSize maxLevel face)"
  shows "\<exists>level x y. level \<in> set [1..maxLevel]
           \<and> (x, y) \<in> set (tileCoords (tilesPerSide (snd (levelRaster face maxLevel level)) tileSize))
           \<and> buildTile enc this (fst (levelRaster face maxLevel level))
                (snd (levelRaster face maxLevel level)) tileSize level (face_name face) x y
               = Inr tle"
proof -
  from assms obtain level where l: "level \<in> set [1..maxLevel]"
    and m: "Inr tle \<in> set (levelBuilds enc this tileSize maxLevel face level)"
    unfolding faceBuilds_def by auto
  from m obtain xy where xy: "xy \<in> set (tileCoords (tilesPerSide (snd (levelRaster face maxLevel level)) tileSize))"
    and b: "Inr tle = (case xy of (x, y) \<Rightarrow>
              buildTile enc this (fst (levelRaster face maxLevel level))
                (snd (levelRaster face maxLevel level)) tileSize level (face_name face) x y)"
    unfolding levelBuilds_def by auto
  obtain x y where "xy = (x, y)" by (cases xy)
  with l xy b show ?thesis by auto
qed

lemma pyramid_tile_built:
  assumes "generateTilePyramid enc this faces tileSize maxLevel onProgress w = (Inr ts, w')"
    and "tle \<in> set ts"
  shows "\<exists>face level x y. face \<in> set faces \<and> level \<in> set [1..maxLevel]
           \<and> (x, y) \<in> set (tileCoords (tilesPerSide (snd (levelRaster face maxLevel level)) tileSize))
           \<and> buildTile enc this (fst (levelRaster face maxLevel level))
                (snd (levelRaster face maxLevel level)) tileSize level (face_name face) x y
               = Inr tle"
proof -
  have "Inr tle \<in> set (map Inr ts)" using assms(2) by simp
  also have "map Inr ts = concat (map (faceBuilds enc this tileSize maxLevel) faces)"
    by (rule generateTilePyramid_builds[OF assms(1)])
  finally obtain face where "face \<in> set faces"
    and "Inr tle \<in> set (faceBuilds enc this tileSize maxLevel face)" by auto
  then show ?thesis using faceBuilds_member by blast
qed

subsection \<open>Fallback tiles\<close>

lemma fallbackLoop_tiles:
  "fallbackLoop enc this fallbackSize faces tiles = Inr fb \<Longrightarrow>
   \<exists>new. fb = tiles @ new \<and> length new = length faces \<and>
     (\<forall>i < length faces.
        tile_level (new ! i) = 0 \<and> tile_face (new ! i) = face_name (faces ! i)
        \<and> tile_x (new ! i) = 0 \<and> tile_y (new ! i) = 0
        \<and> tile_path (new ! i) = fallbackPath (tiler_imageFormat this) (face_name (faces ! i))
        \<and> tile_size (new ! i) = length (tile_blob (new ! i))
        \<and> enc \<lparr> rq_source = face_canvas (faces ! i), rq_sx = 0, rq_sy = 0,
                  rq_sw = face_resolution (faces ! i), rq_sh = face_resolution (faces ! i),
                  rq_outputSize = fallbackSize,
                  rq_mimeType = (if tiler_imageFormat this = Webp then ''image/webp''
                                 else ''image/jpeg''),
                  rq_quality = tiler_quality this \<rparr> = Some (tile_blob (new ! i)))"
proof (induction faces arbitrary: tiles)
  case Nil
  then show ?case by simp
next
  case (Cons face rest)
  let ?rq = "\<lparr> rq_source = face_canvas face, rq_sx = 0, rq_sy = 0,
                rq_sw = face_resolution face, rq_sh = face_resolution face,
                rq_outputSize = fallbackSize,
                rq_mimeType = (if tiler_imageFormat this = Webp then ''image/webp''
                               else ''image/jpeg''),
                rq_quality = tiler_quality this \<rparr>"
  from Cons.prems obtain b where e: "enc ?rq = Some b"
    by (auto simp: extractTile_def Let_def split: sum.splits option.splits)
  let ?t = "\<lparr> tile_path = ''fallback/'' @ face_name face @ ''.''
                         @ (if tiler_imageFormat this = Webp then ''webp'' else ''jpg''),
              tile_level = 0, tile_face = face_name face, tile_x = 0, tile_y = 0,
              tile_blob = b, tile_size = length b \<rparr>"
  have rec: "fallbackLoop enc this fallbackSize rest (tiles @ [?t]) = Inr fb"
    using Cons.prems e by (simp add: extractTile_def Let_def)
  from Cons.IH[OF rec] obtain new where
    fb: "fb = (tiles @ [?t]) @ new" and len: "length new = length rest"
    and all: "\<forall>i < length rest.
        tile_level (new ! i) = 0 \<and> tile_face (new ! i) = face_name (rest ! i)
        \<and> tile_x (new ! i) = 0 \<and> tile_y (new ! i) = 0
        \<and> tile_path (new ! i) = fallbackPath (tiler_imageFormat this) (face_name (rest ! i))
        \<and> tile_size (new ! i) = length (tile_blob (new ! i))
        \<and> enc \<lparr> rq_source = face_canvas (rest ! i), rq_sx = 0, rq_sy = 0,
                  rq_sw = face_resolution (rest ! i), rq_sh = face_resolution (rest ! i),
                  rq_outputSize = fallbackSize,
                  rq_mimeType = (if tiler_imageFormat this = Webp then ''image/webp''
                                 else ''image/jpeg''),
                  rq_quality = tiler_quality this \<rparr> = Some (tile_blob (new ! i))"
    by blast
  have p: "tile_path ?t = fallbackPath (tiler_imageFormat this) (face_name face)"
    by (simp add: fallbackPath_def split: image_format.splits)
  show ?case
  proof (intro exI[of _ "?t # new"] conjI allI impI)
    show "fb = tiles @ ?t # new" using fb by simp
    show "length (?t # new) = length (face # rest)" using len by simp
  next
    fix i assume "i < length (face # rest)"
    then show "tile_level ((?t # new) ! i) = 0"
      and "tile_face ((?t # new) ! i) = face_name ((face # rest) ! i)"
      and "tile_x ((?t # new) ! i) = 0" and "tile_y ((?t # new) ! i) = 0"
      and "tile_path ((?t # new) ! i)
             = fallbackPath (tiler_imageFormat this) (face_name ((face # rest) ! i))"
      and "tile_size ((?t # new) ! i) = length (tile_blob ((?t # new) ! i))"
      and "enc \<lparr> rq_source = face_canvas ((face # rest) ! i), rq_sx = 0, rq_sy = 0,
                  rq_sw = face_resolution ((face # rest) ! i),
                  rq_sh = face_resolution ((face # rest) ! i),
                  rq_outputSize = fallbackSize,
                  rq_mimeType = (if tiler_imageFormat this = Webp then ''image/webp''
                                 else ''image/jpeg''),
                  rq_quality = tiler_quality this \<rparr> = Some (tile_blob ((?t # new) ! i))"
      using all p e by (cases i; simp)+
  qed
qed

section \<open>Tile paths\<close>

text \<open>
  C8. Every tile of \<open>generateTilePyramid\<close> has the path \<open>{level}/{face}/{column}_{row}.{ext}\<close>
  built from its own fields, with \<open>jpg\<close> for jpeg and \<open>webp\<close> for webp; \<open>generateFallbackTiles\<close>
  gives one tile per face, at level 0, with the path \<open>fallback/{face}.{ext}\<close>.
\<close>

theorem tile_path_invariant:
  "(generateTilePyramid enc this faces tileSize maxLevel onProgress w = (Inr ts, w')
      \<longrightarrow> (\<forall>tle \<in> set ts. tile_path tle = tilePath (tiler_imageFormat this) tle))
   \<and> (generateFallbackTiles enc this faces fallbackSize = Inr fb
      \<longrightarrow> length fb = length faces
          \<and> (\<forall>i < length faces.
                tile_level (fb ! i) = 0 \<and> tile_face (fb ! i) = face_name (faces ! i)
                \<and> tile_path (fb ! i)
                    = fallbackPath (tiler_imageFormat this) (face_name (faces ! i))))"
proof (intro conjI impI ballI)
  fix tle
  assume "generateTilePyramid enc this faces tileSize maxLevel onProgress w = (Inr ts, w')"
    and "tle \<in> set ts"
  then obtain face level x y where
    "buildTile enc this (fst (levelRaster face maxLevel level))
       (snd (levelRaster face maxLevel level)) tileSize level (face_name face) x y = Inr tle"
    using pyramid_tile_built by blast
  then show "tile_path tle = tilePath (tiler_imageFormat this) tle"
    by (rule buildTile_fields(5))
next
  assume "generateFallbackTiles enc this faces fallbackSize = Inr fb"
  then have "fallbackLoop enc this fallbackSize faces [] = Inr fb"
    by (simp add: generateFallbackTiles_def)
  from fallbackLoop_tiles[OF this]
  show "length fb = length faces"
    and "\<forall>i < length faces.
                tile_level (fb ! i) = 0 \<and> tile_face (fb ! i) = face_name (faces ! i)
                \<and> tile_path (fb ! i)
                    = fallbackPath (tiler_imageFormat this) (face_name (faces ! i))"
    by auto
qed

theorem tile_path_invariant_witness:
  "(let r = generateTilePyramid sample_encoder sample_tiler [sample_face 2] 1 2 None new_world
    in \<not> isl (fst r)
       \<and> map tile_path (projr (fst r))
           = [''2/f/0_0.jpg'', ''2/f/1_0.jpg'', ''2/f/0_1.jpg'', ''2/f/1_1.jpg'', ''1/f/0_0.jpg'']
       \<and> (\<forall>tle \<in> set (projr (fst r)). tile_path tle = tilePath Jpeg tle))
   \<and> (let fb = generateFallbackTiles sample_encoder sample_tiler [sample_face 2] 1024
      in \<not> isl fb \<and> length (projr fb) = 1 \<and> tile_level (projr fb ! 0) = 0
         \<and> tile_face (projr fb ! 0) = ''f'' \<and> tile_path (projr fb ! 0) = ''fallback/f.jpg'')"
proof -
  define r where "r = generateTilePyramid sample_encoder sample_tiler [sample_face 2] 1 2 None new_world"
  define fb where "fb = generateFallbackTiles sample_encoder sample_tiler [sample_face 2] 1024"
  have r1: "\<not> isl (fst r)" unfolding r_def by code_simp
  have r2: "map tile_path (projr (fst r))
           = [''2/f/0_0.jpg'', ''2/f/1_0.jpg'', ''2/f/0_1.jpg'', ''2/f/1_1.jpg'', ''1/f/0_0.jpg'']"
    unfolding r_def by code_simp
  have f1: "\<not> isl fb" unfolding fb_def by code_simp
  have fmt: "tiler_imageFormat sample_tiler = Jpeg" by (simp add: sample_tiler_def new_Tiler_def)
  have run: "generateTilePyramid sample_encoder sample_tiler [sample_face 2] 1 2 None new_world
               = (Inr (projr (fst r)), snd r)"
    using r1 unfolding r_def by (metis prod.collapse sum.collapse(2))
  have frun: "generateFallbackTiles sample_encoder sample_tiler [sample_face 2] 1024 = Inr (projr fb)"
    using f1 unfolding fb_def by simp
  note t = tile_path_invariant[of sample_encoder sample_tiler "[sample_face 2]" 1 2 None new_world
              "projr (fst r)" "snd r" 1024 "projr fb"]
  have a: "\<forall>tle \<in> set (projr (fst r)). tile_path tle = tilePath Jpeg tle"
    using t run fmt by simp
  have b: "length (projr fb) = 1 \<and> tile_level (projr fb ! 0) = 0
         \<and> tile_face (projr fb ! 0) = ''f'' \<and> tile_path (projr fb ! 0) = ''fallback/f.jpg''"
    using t frun fmt by (simp add: fallbackPath_def sample_face_def)
  show ?thesis
    using r1 r2 a f1 b unfolding Let_def r_def fb_def by simp
qed

section \<open>Levels outside the expected range\<close>








section \<open>Resource Tracker\<close>

lemma disposeEach_ok:
  "\<forall>r \<in> set rs. \<not> fails r \<Longrightarrow> disposeEach fails rs w = (None, w\<lparr>released := released w @ rs\<rparr>)"
  by (induction rs arbitrary: w) simp_all

lemma disposeEach_fail:
  "\<exists>r \<in> set rs. fails r \<Longrightarrow> fst (disposeEach fails rs w) \<noteq> None"
  by (induction rs arbitrary: w) auto

lemma disposeAll_ok:
  assumes "\<forall>r \<in> set (tracked (memory w)). \<not> fails r"
  shows "disposeAll fails w
           = (None, w\<lparr>released := released w @ tracked (memory w), memory := new_MemoryManager\<rparr>)"
proof -
  have a: "\<forall>r \<in> set (textures (memory w)). \<not> fails r"
    and b: "\<forall>r \<in> set (geometries (memory w)). \<not> fails r"
    and c: "\<forall>r \<in> set (materials (memory w)). \<not> fails r"
    and d: "\<forall>r \<in> set (renderTargets (memory w)). \<not> fails r"
    and e: "\<And>r. renderer (memory w) = Some r \<Longrightarrow> \<not> fails r"
    using assms by (auto simp: tracked_def)
  show ?thesis
    unfolding disposeAll_def
    by (cases "renderer (memory w)")
       (simp_all add: disposeEach_ok a b c d e Let_def tracked_def new_MemoryManager_def)
qed

lemma disposeEach_error:
  "disposeEach fails rs w = (Some e, w') \<Longrightarrow> \<exists>r \<in> set rs. fails r"
  by (induction rs arbitrary: w) (auto split: if_splits)

lemma disposeEach_None:
  "disposeEach fails rs w = (None, w') \<Longrightarrow>
   (\<forall>r \<in> set rs. \<not> fails r) \<and> w' = w\<lparr>released := released w @ rs\<rparr>"
proof (induction rs arbitrary: w)
  case Nil
  then show ?case by simp
next
  case (Cons r rs)
  then have nf: "\<not> fails r"
    and rec: "disposeEach fails rs (w\<lparr>released := released w @ [r]\<rparr>) = (None, w')"
    by (auto split: if_splits)
  from Cons.IH[OF rec] nf show ?case by simp
qed

lemma disposeAll_None:
  assumes "disposeAll fails w = (None, w')"
  shows "\<forall>r \<in> set (tracked (memory w)). \<not> fails r"
proof -
  from assms obtain w1 where e1: "disposeEach fails (textures (memory w)) w = (None, w1)"
    unfolding disposeAll_def by (auto split: prod.splits option.splits)
  note k1 = disposeEach_None[OF e1]
  let ?w1 = "w1\<lparr>memory := (memory w1)\<lparr>textures := []\<rparr>\<rparr>"
  from assms e1 obtain w2 where e2: "disposeEach fails (geometries (memory ?w1)) ?w1 = (None, w2)"
    unfolding disposeAll_def by (auto simp: Let_def split: prod.splits option.splits)
  note k2 = disposeEach_None[OF e2]
  let ?w2 = "w2\<lparr>memory := (memory w2)\<lparr>geometries := []\<rparr>\<rparr>"
  from assms e1 e2 obtain w3 where e3: "disposeEach fails (materials (memory ?w2)) ?w2 = (None, w3)"
    unfolding disposeAll_def by (auto simp: Let_def split: prod.splits option.splits)
  note k3 = disposeEach_None[OF e3]
  let ?w3 = "w3\<lparr>memory := (memory w3)\<lparr>materials := []\<rparr>\<rparr>"
  from assms e1 e2 e3 obtain w4 where
    e4: "disposeEach fails (renderTargets (memory ?w3)) ?w3 = (None, w4)"
    unfolding disposeAll_def by (auto simp: Let_def split: prod.splits option.splits)
  note k4 = disposeEach_None[OF e4]
  have rn: "\<not> fails r" if "renderer (memory w4) = Some r" for r
    using assms e1 e2 e3 e4 that unfolding disposeAll_def
    by (auto simp: Let_def split: prod.splits option.splits if_splits)
  have m1: "geometries (memory ?w1) = geometries (memory w)" using k1 by simp
  have m2: "materials (memory ?w2) = materials (memory w)" using k1 k2 by simp
  have m3: "renderTargets (memory ?w3) = renderTargets (memory w)" using k1 k2 k3 by simp
  have m4: "renderer (memory w4) = renderer (memory w)" using k1 k2 k3 k4 by simp
  show ?thesis
    using k1 k2 k3 k4 rn unfolding m1 m2 m3 m4
    by (auto simp: tracked_def split: option.splits)
qed

lemma disposeAll_fail:
  assumes "\<exists>r \<in> set (tracked (memory w)). fails r"
  shows "fst (disposeAll fails w) \<noteq> None"
proof
  assume "fst (disposeAll fails w) = None"
  then have "disposeAll fails w = (None, snd (disposeAll fails w))"
    by (metis prod.collapse)
  from disposeAll_None[OF this] assms show False by blast
qed

lemma disposeAll_empty: "memory w = new_MemoryManager \<Longrightarrow> disposeAll fails w = (None, w)"
  by (simp add: disposeAll_def new_MemoryManager_def Let_def)

theorem disposeAll_swallows_counterexample:
  "fst (disposeAll texture_dispose_fails leaky_world) = Some (DisposeError (Texture, 0))
   \<and> released (snd (disposeAll texture_dispose_fails leaky_world)) = []
   \<and> textures (memory (snd (disposeAll texture_dispose_fails leaky_world))) = [(Texture, 0)]
   \<and> geometries (memory (snd (disposeAll texture_dispose_fails leaky_world))) = [(Geometry, 1)]"
  by code_simp

text \<open>
  C5, as amended. \<open>disposeAll\<close> raises exactly when the \<^verbatim>\<open>dispose()\<close> of a tracked resource
  raises. When none does, every tracked resource is released, in the order textures,
  geometries, materials, render targets, renderer, the four sets and the renderer are
  cleared, and a second call changes nothing; on an empty tracker the call changes nothing.
\<close>

theorem disposeAll_releases_all:
  "((\<forall>r \<in> set (tracked (memory w)). \<not> fails r) \<longrightarrow>
       disposeAll fails w
         = (None, w\<lparr>released := released w @ tracked (memory w), memory := new_MemoryManager\<rparr>)
       \<and> disposeAll fails (snd (disposeAll fails w)) = (None, snd (disposeAll fails w)))
   \<and> (memory w = new_MemoryManager \<longrightarrow> disposeAll fails w = (None, w))
   \<and> ((\<exists>r \<in> set (tracked (memory w)). fails r) \<longrightarrow> fst (disposeAll fails w) \<noteq> None)"
proof (intro conjI impI)
  assume a: "\<forall>r \<in> set (tracked (memory w)). \<not> fails r"
  then show "disposeAll fails w
         = (None, w\<lparr>released := released w @ tracked (memory w), memory := new_MemoryManager\<rparr>)"
    by (rule disposeAll_ok)
  then show "disposeAll fails (snd (disposeAll fails w)) = (None, snd (disposeAll fails w))"
    by (simp add: disposeAll_empty)
next
  assume "memory w = new_MemoryManager"
  then show "disposeAll fails w = (None, w)" by (rule disposeAll_empty)
next
  assume "\<exists>r \<in> set (tracked (memory w)). fails r"
  then show "fst (disposeAll fails w) \<noteq> None" by (rule disposeAll_fail)
qed

theorem disposeAll_releases_all_witness:
  "disposeAll no_dispose_fails leaky_world
     = (None, leaky_world\<lparr>released := [(Texture, 0), (Geometry, 1)], memory := new_MemoryManager\<rparr>)
   \<and> disposeAll no_dispose_fails (snd (disposeAll no_dispose_fails leaky_world))
       = (None, snd (disposeAll no_dispose_fails leaky_world))
   \<and> disposeAll texture_dispose_fails new_world = (None, new_world)
   \<and> fst (disposeAll texture_dispose_fails leaky_world) \<noteq> None"
proof -
  have tr: "tracked (memory leaky_world) = [(Texture, 0), (Geometry, 1)]"
    by (simp add: tracked_def leaky_world_def new_world_def new_MemoryManager_def
                  trackTexture_def trackGeometry_def set_add_def)
  have ok: "\<forall>r \<in> set (tracked (memory leaky_world)). \<not> no_dispose_fails r"
    by (simp add: no_dispose_fails_def)
  have bad: "\<exists>r \<in> set (tracked (memory leaky_world)). texture_dispose_fails r"
    by (simp add: tr texture_dispose_fails_def)
  have e: "memory new_world = new_MemoryManager" by (simp add: new_world_def)
  have rl: "released leaky_world = []" by (simp add: leaky_world_def new_world_def)
  note p1 = disposeAll_releases_all[of leaky_world no_dispose_fails, THEN conjunct1, THEN mp, OF ok]
  note p2 = disposeAll_releases_all[of new_world texture_dispose_fails,
              THEN conjunct2, THEN conjunct1, THEN mp, OF e]
  note p3 = disposeAll_releases_all[of leaky_world texture_dispose_fails,
              THEN conjunct2, THEN conjunct2, THEN mp, OF bad]
  have q1: "disposeAll no_dispose_fails leaky_world
     = (None, leaky_world\<lparr>released := [(Texture, 0), (Geometry, 1)], memory := new_MemoryManager\<rparr>)"
    using p1[THEN conjunct1] by (simp add: tr rl)
  note q2 = p1[THEN conjunct2]
  show ?thesis
    using q1 q2 p2 p3 by blast
qed

section \<open>Reprojection and the texture limit\<close>

lemma reproject_over_limit:
  assumes "min (env_MAX_TEXTURE_SIZE env) (rp_maxTextureSize this) < cubeResolution"
  shows "reprojectToCubeFaces env this img cubeResolution onProgress w
      = (Inl (CubeResolutionExceeds cubeResolution
                (min (env_MAX_TEXTURE_SIZE env) (rp_maxTextureSize this))),
         w\<lparr>allocated := allocated w @ [(Canvas, length (allocated w)),
                                        (Renderer, Suc (length (allocated w)))],
           memory := setRenderer (Renderer, Suc (length (allocated w))) (memory w)\<rparr>)"
  using assms by (simp add: reprojectToCubeFaces_def create_def Let_def)

theorem limit_before_allocation_counterexample:
  "fst (reprojectToCubeFaces sample_env (new_Reprojector None) sample_image 20000 None new_world)
     = Inl (CubeResolutionExceeds 20000 16384)
   \<and> allocated (snd (reprojectToCubeFaces sample_env (new_Reprojector None) sample_image 20000
                        None new_world))
       = [(Canvas, 0), (Renderer, 1)]"
  by code_simp

text \<open>
  C2, as amended. For a \<open>cubeResolution\<close> above the smaller of the configured cap and the
  platform's texture limit, \<open>reprojectToCubeFaces\<close> raises the limit error after it has
  created the canvas and the renderer and registered the renderer, and before anything
  else: no texture, geometry, material or render target is created or tracked, no
  progress is reported and nothing is released.
\<close>

theorem limit_checked_after_renderer:
  "min (env_MAX_TEXTURE_SIZE env) (rp_maxTextureSize this) < cubeResolution \<longrightarrow>
   reprojectToCubeFaces env this img cubeResolution onProgress w
      = (Inl (CubeResolutionExceeds cubeResolution
                (min (env_MAX_TEXTURE_SIZE env) (rp_maxTextureSize this))),
         w\<lparr>allocated := allocated w @ [(Canvas, length (allocated w)),
                                        (Renderer, Suc (length (allocated w)))],
           memory := (memory w)\<lparr>renderer := Some (Renderer, Suc (length (allocated w)))\<rparr>\<rparr>)"
  using reproject_over_limit[of env this cubeResolution img onProgress w]
  by (simp add: setRenderer_def)

theorem limit_checked_after_renderer_witness:
  "min (env_MAX_TEXTURE_SIZE sample_env) (rp_maxTextureSize (new_Reprojector (Some 4096))) < 5000
   \<and> reprojectToCubeFaces sample_env (new_Reprojector (Some 4096)) sample_image 5000 None new_world
      = (Inl (CubeResolutionExceeds 5000 4096),
         new_world\<lparr>allocated := [(Canvas, 0), (Renderer, 1)],
                   memory := new_MemoryManager\<lparr>renderer := Some (Renderer, 1)\<rparr>\<rparr>)"
proof -
  have h: "min (env_MAX_TEXTURE_SIZE sample_env) (rp_maxTextureSize (new_Reprojector (Some 4096)))
             < 5000"
    by (simp add: sample_env_def new_Reprojector_def)
  have m: "min (env_MAX_TEXTURE_SIZE sample_env) (rp_maxTextureSize (new_Reprojector (Some 4096)))
             = 4096"
    by (simp add: sample_env_def new_Reprojector_def)
  show ?thesis
    using h limit_checked_after_renderer[of sample_env "new_Reprojector (Some 4096)" 5000
            sample_image None new_world, THEN mp, OF h]
    unfolding m by (simp add: new_world_def)
qed

text \<open>
  Evaluation on concrete inputs. \<open>calculateCubeResolution\<close> is defined with \<open>pi\<close>, which
  does not compute; the runs evaluated below supply \<open>cubeResolution\<close> themselves, so the
  function is never called in them and is left folded.
\<close>

lemma calculateCubeResolution_folded [code]:
  "calculateCubeResolution w h = Code.abort (STR ''pi'') (\<lambda>_. calculateCubeResolution w h)"
  by simp

text \<open>
  C1 at a failing input: a cube resolution of 20000 on the sample platform. \<open>process\<close>
  fails with the limit error, and the renderer is still registered and nothing has been
  released: \<open>disposeAll\<close> has not run.
\<close>

theorem limit_failure_keeps_renderer:
  "fst (process sample_env (new_PannellumTiler None None)
          (sample_config\<lparr>cfg_cubeResolution := Some 20000\<rparr>) new_world)
     = Inl (CubeResolutionExceeds 20000 16384)
   \<and> renderer (memory (snd (process sample_env (new_PannellumTiler None None)
          (sample_config\<lparr>cfg_cubeResolution := Some 20000\<rparr>) new_world)))
       = Some (Renderer, 1)
   \<and> allocated (snd (process sample_env (new_PannellumTiler None None)
          (sample_config\<lparr>cfg_cubeResolution := Some 20000\<rparr>) new_world))
       = [(Canvas, 0), (Renderer, 1)]
   \<and> released (snd (process sample_env (new_PannellumTiler None None)
          (sample_config\<lparr>cfg_cubeResolution := Some 20000\<rparr>) new_world))
       = []"
  by code_simp

section \<open>Listeners\<close>

lemma emit_calls_all:
  "emit mk cbs info w = w\<lparr>calls := calls w @ map (\<lambda>cb. mk (cb_name cb) info) cbs\<rparr>"
  by (induction cbs arbitrary: w) (simp_all add: invoke_def)

lemma listening_tiler_eq:
  "listening_tiler =
     \<lparr> options = \<lparr> opt_maxTextureSize = 16384, opt_debug = False \<rparr>,
       progressListeners = [progress_listener], errorListeners = [error_listener],
       disposed = False \<rparr>"
  by (simp add: listening_tiler_def on_error_def on_progress_def set_add_def
                new_PannellumTiler_def)

text \<open>
  C6 at a failing input: the per-call \<^verbatim>\<open>onProgress\<close> throws. \<open>process\<close> fails with the
  callback's exception at the first progress report; the registered progress listener is
  never called, and only the error listener runs.
\<close>

theorem throwing_onProgress_aborts:
  "fst (process sample_env listening_tiler
          (sample_config\<lparr>cfg_onProgress := Some throwing_onProgress\<rparr>) new_world)
     = Inl (CallbackError ''onProgress'')
   \<and> calls (snd (process sample_env listening_tiler
          (sample_config\<lparr>cfg_onProgress := Some throwing_onProgress\<rparr>) new_world))
       = [ProgressCall ''onProgress''
            \<lparr> p_stage = Loading, p_progress = 0, p_currentLevel = None, p_currentFace = None \<rparr>,
          ErrorCall ''errorListener'' (CallbackError ''onProgress'')]"
  unfolding listening_tiler_eq by code_simp

section \<open>Runs that succeed\<close>

subsection \<open>Reprojection\<close>

lemma quietD: "quiet s \<Longrightarrow> \<exists>w'. callSink s info w = (None, w')"
  unfolding quiet_def by (metis prod.collapse)

lemma renderFaces_Inr:
  "renderFaces img c onProgress cfgs i faces w = (Inr fs, w') \<Longrightarrow>
   fs = faces @ map (\<lambda>cfg. \<lparr> face_name = fc_name cfg, face_canvas = FaceCanvas img cfg c,
                              face_resolution = c \<rparr>) cfgs"
proof (induction cfgs arbitrary: i faces w)
  case Nil
  then show ?case by simp
next
  case (Cons cfg rest)
  from Cons.prems obtain w2 where
    "renderFaces img c onProgress rest (i + 1)
       (faces @ [\<lparr> face_name = fc_name cfg, face_canvas = FaceCanvas img cfg c,
                   face_resolution = c \<rparr>]) w2 = (Inr fs, w')"
    by (auto simp: Let_def split: prod.splits option.splits)
  from Cons.IH[OF this] show ?case by simp
qed

lemma renderFaces_succeeds:
  "quiet onProgress \<Longrightarrow>
   \<exists>w'. renderFaces img c onProgress cfgs i faces w
          = (Inr (faces @ map (\<lambda>cfg. \<lparr> face_name = fc_name cfg,
                                       face_canvas = FaceCanvas img cfg c,
                                       face_resolution = c \<rparr>) cfgs), w')"
proof (induction cfgs arbitrary: i faces w)
  case Nil
  then show ?case by simp
next
  case (Cons cfg rest)
  obtain w1 where s: "callSink onProgress
            \<lparr> p_stage = Reprojection,
              p_progress = of_nat i / of_nat (length FACE_CONFIGS),
              p_currentLevel = None, p_currentFace = Some (fc_name cfg) \<rparr> w = (None, w1)"
    using quietD[OF Cons.prems] by blast
  obtain cv w2 where c: "create Canvas w1 = (cv, w2)" by (cases "create Canvas w1")
  from Cons.IH[OF Cons.prems, of "i + 1"
      "faces @ [\<lparr> face_name = fc_name cfg, face_canvas = FaceCanvas img cfg c,
                  face_resolution = c \<rparr>]" w2]
  show ?case using s c by simp
qed

lemma reproject_Inr:
  assumes "reprojectToCubeFaces env this img c onProgress w = (Inr fs, w')"
  shows "fs = cubeFaces img c"
proof -
  from assms obtain wa wb where "renderFaces img c onProgress FACE_CONFIGS 0 [] wa = (Inr fs, wb)"
    unfolding reprojectToCubeFaces_def
    by (auto simp: Let_def split: prod.splits sum.splits option.splits if_splits)
  from renderFaces_Inr[OF this] show ?thesis by (simp add: cubeFaces_def)
qed

lemma disposeAll_never_fails:
  "\<forall>r. \<not> fails r \<Longrightarrow> \<exists>w'. disposeAll fails w = (None, w')"
proof -
  assume "\<forall>r. \<not> fails r"
  then have "\<forall>r \<in> set (tracked (memory w)). \<not> fails r" by blast
  from disposeAll_ok[OF this] show ?thesis by blast
qed

lemma reproject_succeeds:
  assumes q: "quiet onProgress"
    and lim: "c \<le> min (env_MAX_TEXTURE_SIZE env) (rp_maxTextureSize this)"
    and d: "\<forall>r. \<not> env_dispose_fails env r"
  shows "\<exists>w'. reprojectToCubeFaces env this img c onProgress w = (Inr (cubeFaces img c), w')"
proof -
  obtain cv w1 where c1: "create Canvas w = (cv, w1)" by (cases "create Canvas w")
  obtain rnd w2 where c2: "create Renderer w1 = (rnd, w2)" by (cases "create Renderer w1")
  let ?w3 = "w2\<lparr>memory := setRenderer rnd (memory w2)\<rparr>"
  obtain tx w4 where c4: "create Texture ?w3 = (tx, w4)" by (cases "create Texture ?w3")
  let ?w5 = "w4\<lparr>memory := trackTexture tx (memory w4)\<rparr>"
  obtain g w6 where c6: "create Geometry ?w5 = (g, w6)" by (cases "create Geometry ?w5")
  let ?w7 = "w6\<lparr>memory := trackGeometry g (memory w6)\<rparr>"
  obtain m w8 where c8: "create Material ?w7 = (m, w8)" by (cases "create Material ?w7")
  let ?w9 = "w8\<lparr>memory := trackMaterial m (memory w8)\<rparr>"
  obtain rt w10 where c10: "create RenderTarget ?w9 = (rt, w10)"
    by (cases "create RenderTarget ?w9")
  let ?w11 = "w10\<lparr>memory := trackRenderTarget rt (memory w10)\<rparr>"
  obtain w12 where r: "renderFaces img c onProgress FACE_CONFIGS 0 [] ?w11
                         = (Inr (cubeFaces img c), w12)"
    using renderFaces_succeeds[OF q, of img c FACE_CONFIGS 0 "[]" ?w11]
    by (auto simp: cubeFaces_def)
  obtain w13 where s: "callSink onProgress
            \<lparr> p_stage = Reprojection, p_progress = 1, p_currentLevel = None,
              p_currentFace = None \<rparr> w12 = (None, w13)"
    using quietD[OF q] by blast
  obtain w14 where dd: "disposeAll (env_dispose_fails env) w13 = (None, w14)"
    using disposeAll_never_fails[OF d] by blast
  have nl: "\<not> min (env_MAX_TEXTURE_SIZE env) (rp_maxTextureSize this) < c"
    using lim by linarith
  show ?thesis
    unfolding reprojectToCubeFaces_def
    by (simp add: c1 c2 c4 c6 c8 c10 r s dd nl Let_def del: min_less_iff_disj)
qed

subsection \<open>Tiling\<close>

lemma promiseAll_total:
  assumes "\<forall>k. \<not> isl (build k)"
  shows "promiseAll (map build ks) = Inr (map (\<lambda>k. projr (build k)) ks)"
proof -
  have "map build ks = map Inr (map (\<lambda>k. projr (build k)) ks)"
    using assms by simp
  then show ?thesis by (simp only: promiseAll_Inr_iff)
qed

lemma batchLoop_succeeds:
  "\<forall>k. \<not> isl (build k) \<Longrightarrow> \<forall>n w. fst (report n w) = None \<Longrightarrow>
   \<exists>ts w'. batchLoop build report coords i tiles w = (Inr ts, w')"
proof (induction build report coords i tiles w rule: batchLoop.induct)
  case (1 build report coords i tiles w)
  show ?case
  proof (cases "i < length coords")
    case False
    then show ?thesis by (simp add: batchLoop.simps)
  next
    case True
    let ?batch = "take TILE_BATCH_SIZE (drop i coords)"
    let ?vs = "map (\<lambda>k. projr (build k)) ?batch"
    have pa: "promiseAll (map build ?batch) = Inr ?vs"
      using "1.prems"(1) by (rule promiseAll_total)
    obtain w1 where rep: "report (min (i + TILE_BATCH_SIZE) (length coords)) w = (None, w1)"
      using "1.prems"(2) by (metis prod.collapse)
    from "1.IH"[OF True refl pa refl refl rep[symmetric] refl "1.prems"]
    obtain ts w' where
      "batchLoop build report coords (i + TILE_BATCH_SIZE) (tiles @ ?vs) w1 = (Inr ts, w')"
      by blast
    then show ?thesis
      using True pa rep by (subst batchLoop.simps) (simp add: Let_def)
  qed
qed

lemma levelLoop_succeeds:
  assumes "\<And>l cv r acc w. \<exists>acc' w'. body l cv r acc w = (Inr acc', w')"
  shows "\<exists>ts w'. levelLoop body m level cv r acc w = (Inr ts, w')"
proof (induction "nat level" arbitrary: level cv r acc w)
  case 0
  then have "\<not> 1 \<le> level" by simp
  then show ?case by (simp add: levelLoop.simps)
next
  case (Suc n)
  then have l1: "1 \<le> level" and n: "n = nat (level - 1)" by auto
  let ?r = "if level < m then r div 2 else r"
  let ?cv = "if level < m then downscaleCanvas cv ?r else cv"
  obtain acc1 w1 where b: "body level ?cv ?r acc w = (Inr acc1, w1)"
    using assms by blast
  from Suc.hyps(1)[OF n, of ?cv ?r acc1 w1]
  obtain ts w' where "levelLoop body m (level - 1) ?cv ?r acc1 w1 = (Inr ts, w')" by blast
  then show ?case
    using l1 b by (subst levelLoop.simps) (simp add: Let_def)
qed

lemma extractTile_total:
  assumes "\<forall>rq. enc rq \<noteq> None"
  shows "\<exists>b. extractTile enc this src sx sy sw sh outputSize = Inr b"
proof -
  let ?rq = "\<lparr> rq_source = src, rq_sx = sx, rq_sy = sy, rq_sw = sw, rq_sh = sh,
                rq_outputSize = outputSize,
                rq_mimeType = (if tiler_imageFormat this = Webp then ''image/webp''
                               else ''image/jpeg''),
                rq_quality = tiler_quality this \<rparr>"
  have "enc ?rq \<noteq> None" by (rule assms[rule_format])
  then obtain b where "enc ?rq = Some b" by blast
  then show ?thesis by (simp add: extractTile_def Let_def)
qed

lemma buildTile_total:
  assumes "\<forall>rq. enc rq \<noteq> None"
  shows "\<not> isl (buildTile enc this cv r tileSize level faceName x y)"
proof -
  obtain b where "extractTile enc this cv (x * tileSize) (y * tileSize)
                    (min tileSize (r - x * tileSize)) (min tileSize (r - y * tileSize)) tileSize
                  = Inr b"
    using extractTile_total[OF assms] by blast
  then show ?thesis by (simp add: buildTile_def Let_def)
qed

text \<open>
  With \<open>tileSize = 0\<close> and a positive resolution the JavaScript quotient is \<^verbatim>\<open>Infinity\<close> and
  the loops that fill \<^verbatim>\<open>tileCoords\<close> do not end, so the statements that the tiler returns
  exclude \<open>tileSize = 0\<close>; \<^verbatim>\<open>validateConfig\<close> excludes it for \<^verbatim>\<open>process\<close>.
\<close>

lemma generateFaceTiles_succeeds:
  assumes e: "\<forall>rq. enc rq \<noteq> None" and q: "quiet onProgress" and t: "tileSize \<noteq> 0"
  shows "\<exists>ts w'. generateFaceTiles enc this face tileSize maxLevel onProgress w = (Inr ts, w')"
  unfolding generateFaceTiles_def Let_def
proof (rule levelLoop_succeeds)
  fix l cv r acc w
  show "\<exists>acc' w'. batchLoop
           (\<lambda>(x, y). buildTile enc this cv r tileSize l (face_name face) x y)
           (\<lambda>completedInLevel. callSink onProgress
               ((of_int (maxLevel - l) + of_nat completedInLevel
                   / of_nat (length (tileCoords (tilesPerSide r tileSize)))) / of_int maxLevel, l))
           (tileCoords (tilesPerSide r tileSize)) 0 acc w = (Inr acc', w')"
  proof (rule batchLoop_succeeds)
    show "\<forall>k. \<not> isl (case k of (x, y) \<Rightarrow> buildTile enc this cv r tileSize l (face_name face) x y)"
      using buildTile_total[OF e] by (auto split: prod.splits)
    show "\<forall>n w. fst (callSink onProgress
               ((of_int (maxLevel - l) + of_nat n
                   / of_nat (length (tileCoords (tilesPerSide r tileSize)))) / of_int maxLevel, l) w)
              = None"
      using q by (simp add: quiet_def)
  qed
qed

lemma faceLoop_succeeds:
  assumes e: "\<forall>rq. enc rq \<noteq> None" and q: "quiet onProgress" and t: "tileSize \<noteq> 0"
  shows "\<exists>ts w'. faceLoop enc this tileSize maxLevel onProgress totalFaces faces faceIndex tiles w
                   = (Inr ts, w')"
proof (induction faces arbitrary: faceIndex tiles w)
  case Nil
  then show ?case by simp
next
  case (Cons face rest)
  let ?sink = "Some (\<lambda>(levelProgress, level).
               let overall = (of_nat faceIndex + levelProgress) / of_nat totalFaces
               in callSink onProgress
                    \<lparr> p_stage = Tiling, p_progress = overall, p_currentLevel = Some level,
                      p_currentFace = Some (face_name face) \<rparr>)"
  have "quiet ?sink" using q by (simp add: quiet_def Let_def split: prod.splits)
  from generateFaceTiles_succeeds[OF e this t]
  obtain faceTiles w1 where
    g: "generateFaceTiles enc this face tileSize maxLevel ?sink w = (Inr faceTiles, w1)"
    by blast
  from Cons.IH[of "faceIndex + 1" "tiles @ faceTiles" w1] show ?case
    using g by simp
qed

lemma generateTilePyramid_succeeds:
  assumes e: "\<forall>rq. enc rq \<noteq> None" and q: "quiet onProgress" and t: "tileSize \<noteq> 0"
  shows "\<exists>ts w'. generateTilePyramid enc this faces tileSize maxLevel onProgress w = (Inr ts, w')"
proof -
  obtain ts w1 where f: "faceLoop enc this tileSize maxLevel onProgress (length faces) faces 0 [] w
                           = (Inr ts, w1)"
    using faceLoop_succeeds[OF e q t] by blast
  obtain w2 where s: "callSink onProgress
            \<lparr> p_stage = Tiling, p_progress = 1, p_currentLevel = None, p_currentFace = None \<rparr> w1
              = (None, w2)"
    using quietD[OF q] by blast
  show ?thesis unfolding generateTilePyramid_def by (simp add: f s Let_def)
qed

lemma fallbackLoop_succeeds:
  "\<forall>rq. enc rq \<noteq> None \<Longrightarrow> \<exists>fb. fallbackLoop enc this fallbackSize faces tiles = Inr fb"
proof (induction faces arbitrary: tiles)
  case Nil
  then show ?case by simp
next
  case (Cons face rest)
  then obtain b where "extractTile enc this (face_canvas face) 0 0 (face_resolution face)
                         (face_resolution face) fallbackSize = Inr b"
    using extractTile_total by blast
  then show ?case using Cons by simp
qed

section \<open>The order of the tiles\<close>

subsection \<open>The order of the tiles\<close>

lemma keys_of_results:
  "map Inr ts = bs \<Longrightarrow> list_all2 (\<lambda>b k. \<forall>tle. b = Inr tle \<longrightarrow> tileKey tle = k) bs ks \<Longrightarrow>
   map tileKey ts = ks"
proof (induction ts arbitrary: bs ks)
  case Nil
  then show ?case by simp
next
  case (Cons a ts)
  then obtain bs' where bs: "bs = Inr a # bs'" and m: "map Inr ts = bs'" by auto
  with Cons.prems(2) obtain k ks' where ks: "ks = k # ks'" and k: "tileKey a = k"
    and r: "list_all2 (\<lambda>b k. \<forall>tle. b = Inr tle \<longrightarrow> tileKey tle = k) bs' ks'"
    by (auto simp: list_all2_Cons1)
  from Cons.IH[OF m r] ks k show ?case by simp
qed

lemma list_all2_concat_map:
  "(\<And>x. x \<in> set xs \<Longrightarrow> list_all2 P (f x) (g x)) \<Longrightarrow>
   list_all2 P (concat (map f xs)) (concat (map g xs))"
  by (induction xs) (auto intro: list_all2_appendI)

lemma list_all2_map_both:
  "(\<And>x. x \<in> set xs \<Longrightarrow> P (f x) (g x)) \<Longrightarrow> list_all2 P (map f xs) (map g xs)"
  by (induction xs) auto

lemma tileCoords_keys:
  "concat (map (\<lambda>y. map (\<lambda>x. (f, l, x, y)) [0..n - 1]) [0..n - 1])
     = map (\<lambda>(x, y). (f, l, x, y)) (tileCoords n)"
  by (simp add: tileCoords_def map_concat comp_def)

lemma levelBuilds_keys:
  assumes "face_resolution face = c"
  shows "list_all2 (\<lambda>b k. \<forall>tle. b = Inr tle \<longrightarrow> tileKey tle = k)
           (levelBuilds enc this tileSize maxLevel face l)
           (concat (map (\<lambda>y. map (\<lambda>x. (face_name face, l, x, y))
                      [0..tilesPerSide (c div 2 ^ nat (maxLevel - l)) tileSize - 1])
              [0..tilesPerSide (c div 2 ^ nat (maxLevel - l)) tileSize - 1]))"
proof -
  have r: "snd (levelRaster face maxLevel l) = c div 2 ^ nat (maxLevel - l)"
    using assms by (simp add: levelRaster_def snd_halvings)
  show ?thesis
    unfolding tileCoords_keys levelBuilds_def r
  proof (rule list_all2_map_both)
    fix xy
    show "\<forall>tle. (case xy of (x, y) \<Rightarrow>
              buildTile enc this (fst (levelRaster face maxLevel l))
                (c div 2 ^ nat (maxLevel - l)) tileSize l (face_name face) x y) = Inr tle
            \<longrightarrow> tileKey tle = (case xy of (x, y) \<Rightarrow> (face_name face, l, x, y))"
      by (auto simp: tileKey_def dest: buildTile_fields(1-4) split: prod.splits)
  qed
qed

lemma pyramid_keys:
  assumes run: "generateTilePyramid enc this faces tileSize maxLevel onProgress w = (Inr ts, w')"
    and res: "\<forall>face \<in> set faces. face_resolution face = c"
  shows "map tileKey ts = pyramidOrder (map face_name faces) c tileSize maxLevel"
proof (rule keys_of_results[OF generateTilePyramid_builds[OF run]])
  show "list_all2 (\<lambda>b k. \<forall>tle. b = Inr tle \<longrightarrow> tileKey tle = k)
          (concat (map (faceBuilds enc this tileSize maxLevel) faces))
          (pyramidOrder (map face_name faces) c tileSize maxLevel)"
    unfolding pyramidOrder_def faceBuilds_def map_map comp_def
  proof (rule list_all2_concat_map)
    fix face assume "face \<in> set faces"
    then have fr: "face_resolution face = c" using res by blast
    show "list_all2 (\<lambda>b k. \<forall>tle. b = Inr tle \<longrightarrow> tileKey tle = k)
            (concat (map (levelBuilds enc this tileSize maxLevel face) (rev [1..maxLevel])))
            (concat (map (\<lambda>l. concat (map (\<lambda>y. map (\<lambda>x. (face_name face, l, x, y))
                      [0..tilesPerSide (c div 2 ^ nat (maxLevel - l)) tileSize - 1])
                    [0..tilesPerSide (c div 2 ^ nat (maxLevel - l)) tileSize - 1]))
               (rev [1..maxLevel])))"
      by (rule list_all2_concat_map) (rule levelBuilds_keys[OF fr])
  qed
qed

lemma cubeFaces_names: "map face_name (cubeFaces img c) = FACE_NAMES"
  by (simp add: cubeFaces_def FACE_CONFIGS_def FACE_NAMES_def)

lemma cubeFaces_resolution: "\<forall>face \<in> set (cubeFaces img c). face_resolution face = c"
  by (simp add: cubeFaces_def)

lemma cubeFaces_length: "length (cubeFaces img c) = 6"
  by (simp add: cubeFaces_def FACE_CONFIGS_def)

section \<open>The pipeline\<close>

subsection \<open>The stages of a call\<close>

lemma processStages_Inr:
  assumes "processStages env this config w = (Inr (allTiles, d, md), w')"
  shows "\<exists>img pyr fb wa.
      env_loadImage env (cfg_sourceImage config) = Inr img
    \<and> generateTilePyramid (env_encode env) (tilerOf config)
         (cubeFaces img (md_cubeResolution md)) (md_tileSize md) (levelOf (md_maxLevel md))
         (Some (progressBroadcast this (cfg_onProgress config))) wa = (Inr pyr, w')
    \<and> (if fallbackOf config
        then generateFallbackTiles (env_encode env) (tilerOf config)
               (cubeFaces img (md_cubeResolution md)) 1024 = Inr fb
        else fb = [])
    \<and> allTiles = pyr @ fb
    \<and> md_cubeResolution md = cubeResolutionOf config img
    \<and> md_tileSize md = tileSizeOf config
    \<and> md_maxLevel md = (case cfg_maxLevel config of
                             Some m \<Rightarrow> Some m
                           | None \<Rightarrow> calculateMaxLevel (env_ceilLog2 env) (cubeResolutionOf config img)
                                       (tileSizeOf config))
    \<and> md_totalTiles md = length allTiles
    \<and> md_faces md = FACE_NAMES
    \<and> d_maxLevel d = md_maxLevel md"
proof -
  let ?progress = "progressBroadcast this (cfg_onProgress config)"
  from assms obtain img where img: "env_loadImage env (cfg_sourceImage config) = Inr img"
    unfolding processStages_def Let_def
    by (auto split: prod.splits sum.splits option.splits)
  let ?c = "cubeResolutionOf config img"
  let ?m = "case cfg_maxLevel config of Some m \<Rightarrow> Some m | None \<Rightarrow> calculateMaxLevel (env_ceilLog2 env) ?c (tileSizeOf config)"
  from assms img obtain pyr fb wa where
    gp: "generateTilePyramid (env_encode env) (tilerOf config) (cubeFaces img ?c)
           (tileSizeOf config) (levelOf ?m) (Some ?progress) wa = (Inr pyr, w')"
    and fbk: "(if fallbackOf config
        then generateFallbackTiles (env_encode env) (tilerOf config) (cubeFaces img ?c) 1024 = Inr fb
        else fb = [])"
    and at: "allTiles = pyr @ fb"
    and md: "md = \<lparr> md_totalTiles = length allTiles,
                     md_totalSize = foldl (\<lambda>sum t. sum + tile_size t) 0 allTiles,
                     md_maxLevel = ?m, md_cubeResolution = ?c, md_tileSize = tileSizeOf config,
                     md_faces = FACE_NAMES \<rparr>"
    and dm: "d_maxLevel d = ?m"
    unfolding processStages_def Let_def cubeResolutionOf_def tileSizeOf_def tilerOf_def
      fallbackOf_def levelOf_def
    by (auto simp: generateConfig_def
             split: prod.splits sum.splits option.splits if_splits dest!: reproject_Inr)
  show ?thesis
    using img gp fbk at dm unfolding md by auto
qed

lemma progressBroadcast_quiet:
  assumes "\<forall>cb. onProgress = Some cb \<longrightarrow> (\<forall>info. \<not> cb_throws cb info)"
  shows "quiet (Some (progressBroadcast this onProgress))"
  using assms
  by (cases onProgress) (auto simp: quiet_def progressBroadcast_def invoke_def)

lemma processStages_succeeds:
  assumes load: "env_loadImage env (cfg_sourceImage config) = Inr img"
    and cb: "\<forall>cb. cfg_onProgress config = Some cb \<longrightarrow> (\<forall>info. \<not> cb_throws cb info)"
    and lim: "cubeResolutionOf config img
                \<le> min (env_MAX_TEXTURE_SIZE env) (opt_maxTextureSize (options this))"
    and enc: "\<forall>rq. env_encode env rq \<noteq> None"
    and dis: "\<forall>r. \<not> env_dispose_fails env r"
    and ts: "tileSizeOf config \<noteq> 0"
  shows "\<exists>allTiles d md w'. processStages env this config w = (Inr (allTiles, d, md), w')"
proof -
  let ?progress = "progressBroadcast this (cfg_onProgress config)"
  let ?c = "cubeResolutionOf config img"
  let ?m = "case cfg_maxLevel config of Some m \<Rightarrow> Some m
            | None \<Rightarrow> calculateMaxLevel (env_ceilLog2 env) ?c (tileSizeOf config)"
  have q: "quiet (Some ?progress)" using cb by (rule progressBroadcast_quiet)
  obtain w1 where p0: "?progress \<lparr> p_stage = Loading, p_progress = 0, p_currentLevel = None,
                                   p_currentFace = None \<rparr> w = (None, w1)"
    using quietD[OF q] by fastforce
  obtain w2 where p1: "?progress \<lparr> p_stage = Loading, p_progress = 1, p_currentLevel = None,
                                   p_currentFace = None \<rparr> w1 = (None, w2)"
    using quietD[OF q] by fastforce
  let ?rp = "new_Reprojector (Some (opt_maxTextureSize (options this)))"
  have lim': "?c \<le> min (env_MAX_TEXTURE_SIZE env) (rp_maxTextureSize ?rp)"
    using lim by (simp add: new_Reprojector_def)
  obtain w4 where rp: "reprojectToCubeFaces env ?rp img ?c (Some ?progress)
                         (w2\<lparr>memory := new_MemoryManager\<rparr>) = (Inr (cubeFaces img ?c), w4)"
    using reproject_succeeds[OF q lim' dis] by blast
  obtain pyr w5 where gp: "generateTilePyramid (env_encode env) (tilerOf config)
        (cubeFaces img ?c) (tileSizeOf config) (levelOf ?m) (Some ?progress) w4 = (Inr pyr, w5)"
    using generateTilePyramid_succeeds[OF enc q ts] by blast
  obtain fb where fb: "generateFallbackTiles (env_encode env) (tilerOf config)
        (cubeFaces img ?c) 1024 = Inr fb"
    using fallbackLoop_succeeds[OF enc] unfolding generateFallbackTiles_def by blast
  show ?thesis
    using p0 p1 load rp gp fb
    unfolding processStages_def Let_def cubeResolutionOf_def tileSizeOf_def tilerOf_def
      fallbackOf_def levelOf_def
    by (cases "cfg_fallbackTiles config"; simp)
qed

subsection \<open>The archive\<close>

lemma zipLoop_Inr:
  "zipLoop onProgress n tiles i files w = (Inr out, w') \<Longrightarrow>
   out = foldl (\<lambda>fs t. assign (tile_path t) (TileEntry (tile_blob t)) fs) files tiles"
  by (induction tiles arbitrary: i files w)
     (auto simp: Let_def split: prod.splits option.splits)

lemma zipLoop_succeeds:
  assumes "quiet onProgress"
  shows "\<exists>out w'. zipLoop onProgress n tiles i files w = (Inr out, w')"
proof (induction tiles arbitrary: i files w)
  case Nil
  then show ?case by simp
next
  case (Cons t tiles)
  obtain w1 where "callSink onProgress (of_nat (i + 1) / of_nat n) w = (None, w1)"
    using quietD[OF assms] by blast
  then show ?case using Cons.IH by (simp add: Let_def)
qed

lemma assign_fresh: "k \<notin> fst ` set fs \<Longrightarrow> assign k v fs = fs @ [(k, v)]"
  by (induction fs) auto

lemma assign_keys: "fst ` set (assign k v fs) = insert k (fst ` set fs)"
  by (induction fs) auto

lemma assign_subset: "set (assign k v fs) \<subseteq> insert (k, v) (set fs)"
  by (induction fs) auto

lemma foldl_assign_keys:
  "fst ` set (foldl (\<lambda>fs t. assign (tile_path t) (TileEntry (tile_blob t)) fs) fs ts)
     = fst ` set fs \<union> tile_path ` set ts"
  by (induction ts arbitrary: fs) (auto simp: assign_keys)

lemma foldl_assign_subset:
  "set (foldl (\<lambda>fs t. assign (tile_path t) (TileEntry (tile_blob t)) fs) fs ts)
     \<subseteq> set fs \<union> tileEntry ` set ts"
proof (induction ts arbitrary: fs)
  case Nil
  then show ?case by simp
next
  case (Cons t ts)
  have "set (foldl (\<lambda>fs t. assign (tile_path t) (TileEntry (tile_blob t)) fs)
               (assign (tile_path t) (TileEntry (tile_blob t)) fs) ts)
          \<subseteq> set (assign (tile_path t) (TileEntry (tile_blob t)) fs) \<union> tileEntry ` set ts"
    by (rule Cons.IH)
  also have "\<dots> \<subseteq> insert (tileEntry t) (set fs) \<union> tileEntry ` set ts"
    using assign_subset[of "tile_path t" "TileEntry (tile_blob t)" fs]
    by (auto simp: tileEntry_def)
  finally show ?case by auto
qed

lemma foldl_assign_head:
  "\<forall>t \<in> set ts. tile_path t \<noteq> fst p \<Longrightarrow>
   foldl (\<lambda>fs t. assign (tile_path t) (TileEntry (tile_blob t)) fs) (p # fs) ts
     = p # foldl (\<lambda>fs t. assign (tile_path t) (TileEntry (tile_blob t)) fs) fs ts"
  by (induction ts arbitrary: fs) auto

lemma foldl_assign_fresh:
  "distinct (map tile_path ts) \<Longrightarrow> \<forall>t \<in> set ts. tile_path t \<notin> fst ` set fs \<Longrightarrow>
   foldl (\<lambda>fs t. assign (tile_path t) (TileEntry (tile_blob t)) fs) fs ts
     = fs @ map tileEntry ts"
proof (induction ts arbitrary: fs)
  case Nil
  then show ?case by simp
next
  case (Cons t ts)
  have a: "assign (tile_path t) (TileEntry (tile_blob t)) fs = fs @ [tileEntry t]"
    using Cons.prems(2) by (simp add: assign_fresh tileEntry_def)
  have "\<forall>u \<in> set ts. tile_path u \<notin> fst ` set (fs @ [tileEntry t])"
  proof
    fix u assume u: "u \<in> set ts"
    then have "tile_path u \<noteq> tile_path t" using Cons.prems(1) by (metis distinct.simps(2) image_eqI list.simps(9) set_map)
    moreover have "tile_path u \<notin> fst ` set fs" using Cons.prems(2) u by simp
    ultimately show "tile_path u \<notin> fst ` set (fs @ [tileEntry t])"
      by (simp add: tileEntry_def)
  qed
  then show ?case using Cons.IH[of "fs @ [tileEntry t]"] Cons.prems(1) a by simp
qed

text \<open>The archive of a tile list made of two parts, the second with fresh distinct paths.\<close>

lemma archive_entries:
  assumes p: "\<forall>t \<in> set pyr. tile_path t \<noteq> ''config.json''"
    and f: "distinct (map tile_path fb)"
    and pf: "\<forall>t \<in> set fb. tile_path t \<noteq> ''config.json'' \<and> tile_path t \<notin> tile_path ` set pyr"
  shows "\<exists>pyrEntries.
     foldl (\<lambda>fs t. assign (tile_path t) (TileEntry (tile_blob t)) fs)
           [(''config.json'', ConfigEntry d)] (pyr @ fb)
       = (''config.json'', ConfigEntry d) # pyrEntries @ map tileEntry fb
     \<and> fst ` set pyrEntries = tile_path ` set pyr
     \<and> set pyrEntries \<subseteq> tileEntry ` set pyr"
proof -
  let ?A = "\<lambda>fs t. assign (tile_path t) (TileEntry (tile_blob t)) fs"
  define pe where "pe = foldl ?A [] pyr"
  have h: "foldl ?A [(''config.json'', ConfigEntry d)] pyr = (''config.json'', ConfigEntry d) # pe"
    unfolding pe_def using p by (intro foldl_assign_head) simp
  have k: "fst ` set pe = tile_path ` set pyr"
    unfolding pe_def by (simp add: foldl_assign_keys)
  have s: "set pe \<subseteq> tileEntry ` set pyr"
    unfolding pe_def using foldl_assign_subset[of "[]" pyr] by simp
  have fr: "\<forall>t \<in> set fb. tile_path t \<notin> fst ` set ((''config.json'', ConfigEntry d) # pe)"
    using pf k by auto
  have "foldl ?A [(''config.json'', ConfigEntry d)] (pyr @ fb)
          = foldl ?A ((''config.json'', ConfigEntry d) # pe) fb"
    by (simp add: h)
  also have "\<dots> = ((''config.json'', ConfigEntry d) # pe) @ map tileEntry fb"
    using f fr by (rule foldl_assign_fresh)
  finally show ?thesis using k s by auto
qed

lemma buildZipResult_Inr:
  assumes "buildZipResult env tiles d md progress w = (Inr result, w')"
  shows "result = ZipResult (foldl (\<lambda>fs t. assign (tile_path t) (TileEntry (tile_blob t)) fs)
                               [(''config.json'', ConfigEntry d)] tiles) md"
  using assms unfolding buildZipResult_def createZipOutput_def
  by (auto split: prod.splits sum.splits option.splits if_splits dest!: zipLoop_Inr)

lemma buildZipResult_succeeds:
  assumes q: "quiet (Some progress)" and z: "\<not> env_zip_fails env"
  shows "\<exists>result w'. buildZipResult env tiles d md progress w = (Inr result, w')"
proof -
  let ?sink = "Some (\<lambda>p. progress \<lparr> p_stage = Packaging, p_progress = p, p_currentLevel = None,
                                      p_currentFace = None \<rparr>)"
  have qs: "quiet ?sink" using q by (simp add: quiet_def)
  obtain w1 where p0: "progress \<lparr> p_stage = Packaging, p_progress = 0, p_currentLevel = None,
                                  p_currentFace = None \<rparr> w = (None, w1)"
    using quietD[OF q] by fastforce
  obtain out w2 where zl: "zipLoop ?sink (length tiles) tiles 0 [(''config.json'', ConfigEntry d)] w1
                             = (Inr out, w2)"
    using zipLoop_succeeds[OF qs] by blast
  obtain w3 where p1: "progress \<lparr> p_stage = Packaging, p_progress = 1, p_currentLevel = None,
                                  p_currentFace = None \<rparr> w2 = (None, w3)"
    using quietD[OF q] by fastforce
  show ?thesis
    using p0 zl p1 z unfolding buildZipResult_def createZipOutput_def by simp
qed

subsection \<open>The result of a call\<close>

lemma process_Inr:
  assumes "process env this config w = (Inr result, w')"
  shows "\<exists>allTiles d md ws.
      processStages env this config w = (Inr (allTiles, d, md), ws)
    \<and> validateConfig config = None
    \<and> (cfg_output config = Some ''raw'' \<longrightarrow> result = RawResult d allTiles md \<and> ws = w')
    \<and> (cfg_output config = Some ''stream''
         \<longrightarrow> result = StreamResult d (createTileStream allTiles d) md \<and> ws = w')
    \<and> (cfg_output config = Some ''zip''
         \<longrightarrow> result = ZipResult (foldl (\<lambda>fs t. assign (tile_path t) (TileEntry (tile_blob t)) fs)
                                       [(''config.json'', ConfigEntry d)] allTiles) md)
    \<and> (\<forall>tiles. result = RawResult d tiles md \<longrightarrow> cfg_output config = Some ''raw'')
    \<and> (\<forall>items. result = StreamResult d items md \<longrightarrow> cfg_output config = Some ''stream'')"
proof -
  from assms have v: "validateConfig config = None" and nd: "\<not> disposed this"
    and t: "processTry env this config w = (Inr result, w')"
    unfolding process_def by (auto split: if_splits option.splits prod.splits sum.splits)
  from t obtain allTiles d md ws where
    st: "processStages env this config w = (Inr (allTiles, d, md), ws)"
    unfolding processTry_def Let_def by (auto split: prod.splits sum.splits)
  have z: "result = ZipResult (foldl (\<lambda>fs t. assign (tile_path t) (TileEntry (tile_blob t)) fs)
                                  [(''config.json'', ConfigEntry d)] allTiles) md"
    if "buildZipResult env allTiles d md (progressBroadcast this (cfg_onProgress config)) ws
          = (Inr result, w')"
    using that by (rule buildZipResult_Inr)
  show ?thesis
    using t st v z unfolding processTry_def Let_def buildRawResult_def buildStreamResult_def
    by (auto split: if_splits)
qed

lemma validateConfig_tileSize: "validateConfig config = None \<Longrightarrow> 1 \<le> tileSizeOf config"
  by (auto simp: validateConfig_def tileSizeOf_def split: if_splits option.splits)

lemma process_succeeds:
  assumes nd: "\<not> disposed this"
    and v: "validateConfig config = None"
    and zip: "cfg_output config = Some ''zip'' \<longrightarrow> \<not> env_zip_fails env"
    and load: "env_loadImage env (cfg_sourceImage config) = Inr img"
    and cb: "\<forall>cb. cfg_onProgress config = Some cb \<longrightarrow> (\<forall>info. \<not> cb_throws cb info)"
    and lim: "cubeResolutionOf config img
                \<le> min (env_MAX_TEXTURE_SIZE env) (opt_maxTextureSize (options this))"
    and enc: "\<forall>rq. env_encode env rq \<noteq> None"
    and dis: "\<forall>r. \<not> env_dispose_fails env r"
  shows "\<exists>result w'. process env this config w = (Inr result, w')"
proof -
  obtain allTiles d md ws where
    st: "processStages env this config w = (Inr (allTiles, d, md), ws)"
    using processStages_succeeds[OF load cb lim enc dis] validateConfig_tileSize[OF v] by force
  have out: "cfg_output config = Some ''zip'' \<or> cfg_output config = Some ''raw''
             \<or> cfg_output config = Some ''stream''"
    using v by (auto simp: validateConfig_def split: if_splits)
  show ?thesis
  proof (cases "cfg_output config = Some ''zip''")
    case True
    have q: "quiet (Some (progressBroadcast this (cfg_onProgress config)))"
      using cb by (rule progressBroadcast_quiet)
    obtain result w' where
      "buildZipResult env allTiles d md (progressBroadcast this (cfg_onProgress config)) ws
         = (Inr result, w')"
      using buildZipResult_succeeds[OF q] zip True by blast
    then show ?thesis
      using nd v st True unfolding process_def processTry_def Let_def by simp
  next
    case False
    then show ?thesis
      using nd v st out unfolding process_def processTry_def Let_def by auto
  qed
qed

section \<open>Fallback tiles and the stream\<close>

subsection \<open>Fallback tiles\<close>

lemma sample_run:
  assumes "config = sample_config\<lparr>cfg_fallbackTiles := fbt, cfg_output := Some out\<rparr>"
    and "out = ''raw'' \<or> out = ''stream'' \<or> out = ''zip''"
  shows "\<exists>result w'. process sample_env (new_PannellumTiler None None) config new_world
                        = (Inr result, w')"
proof (rule process_succeeds)
  show "\<not> disposed (new_PannellumTiler None None)" by (simp add: new_PannellumTiler_def)
  show "validateConfig config = None"
    using assms by (auto simp: validateConfig_def sample_config_def)
  show "cfg_output config = Some ''zip'' \<longrightarrow> \<not> env_zip_fails sample_env"
    by (simp add: sample_env_def)
  show "env_loadImage sample_env (cfg_sourceImage config) = Inr sample_image"
    by (simp add: sample_env_def)
  show "\<forall>cb. cfg_onProgress config = Some cb \<longrightarrow> (\<forall>info. \<not> cb_throws cb info)"
    using assms by (simp add: sample_config_def)
  show "cubeResolutionOf config sample_image
          \<le> min (env_MAX_TEXTURE_SIZE sample_env)
                (opt_maxTextureSize (options (new_PannellumTiler None None)))"
    using assms
    by (simp add: cubeResolutionOf_def sample_config_def sample_env_def new_PannellumTiler_def)
  show "\<forall>rq. env_encode sample_env rq \<noteq> None"
    by (simp add: sample_env_def sample_encoder_def)
  show "\<forall>r. \<not> env_dispose_fails sample_env r"
    by (simp add: sample_env_def no_dispose_fails_def)
qed

lemma pyramid_levels_positive:
  assumes "generateTilePyramid enc this faces tileSize maxLevel onProgress w = (Inr ts, w')"
    and "tle \<in> set ts"
  shows "1 \<le> tile_level tle"
proof -
  from pyramid_tile_built[OF assms] obtain face level x y where
    l: "level \<in> set [1..maxLevel]"
    and b: "buildTile enc this (fst (levelRaster face maxLevel level))
              (snd (levelRaster face maxLevel level)) tileSize level (face_name face) x y = Inr tle"
    by blast
  from buildTile_fields(1)[OF b] l show ?thesis by simp
qed

lemma fallback_tiles_of_cubeFaces:
  assumes "generateFallbackTiles enc this (cubeFaces img c) fallbackSize = Inr fb"
  shows "length fb = 6
    \<and> (\<forall>i < 6. tile_level (fb ! i) = 0 \<and> tile_face (fb ! i) = FACE_NAMES ! i
          \<and> tile_x (fb ! i) = 0 \<and> tile_y (fb ! i) = 0
          \<and> tile_path (fb ! i) = fallbackPath (tiler_imageFormat this) (FACE_NAMES ! i)
          \<and> enc \<lparr> rq_source = FaceCanvas img (FACE_CONFIGS ! i) c, rq_sx = 0, rq_sy = 0,
                    rq_sw = c, rq_sh = c, rq_outputSize = fallbackSize,
                    rq_mimeType = (if tiler_imageFormat this = Webp then ''image/webp''
                                   else ''image/jpeg''),
                    rq_quality = tiler_quality this \<rparr> = Some (tile_blob (fb ! i)))"
proof -
  from assms have "fallbackLoop enc this fallbackSize (cubeFaces img c) [] = Inr fb"
    by (simp add: generateFallbackTiles_def)
  from fallbackLoop_tiles[OF this] obtain new where fb: "fb = new"
    and len: "length new = length (cubeFaces img c)"
    and all: "\<forall>i < length (cubeFaces img c).
        tile_level (new ! i) = 0 \<and> tile_face (new ! i) = face_name (cubeFaces img c ! i)
        \<and> tile_x (new ! i) = 0 \<and> tile_y (new ! i) = 0
        \<and> tile_path (new ! i)
            = fallbackPath (tiler_imageFormat this) (face_name (cubeFaces img c ! i))
        \<and> tile_size (new ! i) = length (tile_blob (new ! i))
        \<and> enc \<lparr> rq_source = face_canvas (cubeFaces img c ! i), rq_sx = 0, rq_sy = 0,
                  rq_sw = face_resolution (cubeFaces img c ! i),
                  rq_sh = face_resolution (cubeFaces img c ! i),
                  rq_outputSize = fallbackSize,
                  rq_mimeType = (if tiler_imageFormat this = Webp then ''image/webp''
                                 else ''image/jpeg''),
                  rq_quality = tiler_quality this \<rparr> = Some (tile_blob (new ! i))"
    by auto
  have nth: "cubeFaces img c ! i
               = \<lparr> face_name = FACE_NAMES ! i, face_canvas = FaceCanvas img (FACE_CONFIGS ! i) c,
                   face_resolution = c \<rparr>" if "i < 6" for i
  proof -
    have l: "i < length FACE_CONFIGS" using that by (simp add: FACE_CONFIGS_def)
    have "fc_name (FACE_CONFIGS ! i) = map fc_name FACE_CONFIGS ! i" using l by simp
    also have "map fc_name FACE_CONFIGS = FACE_NAMES"
      by (simp add: FACE_CONFIGS_def FACE_NAMES_def)
    finally show ?thesis using l by (simp add: cubeFaces_def)
  qed
  show ?thesis
    using len all nth unfolding fb by (simp add: cubeFaces_length)
qed

lemma showNat_head: "showNat n \<noteq> [] \<and> hd (showNat n) \<in> set ''0123456789''"
proof (induction n rule: showNat.induct)
  case (1 n)
  show ?case
  proof (cases "n < 10")
    case True
    then have "''0123456789'' ! n \<in> set ''0123456789''" by (intro nth_mem) simp
    then show ?thesis using True by (subst (1 2) showNat.simps) simp
  next
    case False
    then show ?thesis using 1 by (subst (1 2) showNat.simps) simp
  qed
qed

lemma pyramid_path_head:
  assumes "generateTilePyramid enc this faces tileSize maxLevel onProgress w = (Inr ts, w')"
    and "tle \<in> set ts"
  shows "tile_path tle \<noteq> [] \<and> hd (tile_path tle) \<in> set ''0123456789''"
proof -
  from pyramid_tile_built[OF assms] obtain face level x y where
    l: "level \<in> set [1..maxLevel]"
    and b: "buildTile enc this (fst (levelRaster face maxLevel level))
              (snd (levelRaster face maxLevel level)) tileSize level (face_name face) x y = Inr tle"
    by blast
  have lv: "1 \<le> tile_level tle" using buildTile_fields(1)[OF b] l by simp
  have "tile_path tle = showNat (nat (tile_level tle)) @ ''/'' @ tile_face tle @ ''/''
          @ showInt (tile_x tle) @ ''_'' @ showInt (tile_y tle) @ ''.''
          @ (case tiler_imageFormat this of Jpeg \<Rightarrow> ''jpg'' | Webp \<Rightarrow> ''webp'')"
    using buildTile_fields(5)[OF b] lv by (simp add: tilePath_def showInt_def)
  then show ?thesis using showNat_head[of "nat (tile_level tle)"] by simp
qed

lemma fallback_paths:
  assumes "generateFallbackTiles enc this (cubeFaces img c) fallbackSize = Inr fb"
  shows "map tile_path fb = map (fallbackPath (tiler_imageFormat this)) FACE_NAMES"
proof (rule nth_equalityI)
  note f = fallback_tiles_of_cubeFaces[OF assms]
  have lf: "length FACE_NAMES = 6" by (simp add: FACE_NAMES_def)
  show "length (map tile_path fb) = length (map (fallbackPath (tiler_imageFormat this)) FACE_NAMES)"
    using f by (simp add: lf)
  fix i assume "i < length (map tile_path fb)"
  then have i: "i < 6" using f by simp
  then show "map tile_path fb ! i = map (fallbackPath (tiler_imageFormat this)) FACE_NAMES ! i"
    using f by (simp add: lf)
qed

lemma fallback_paths_fresh:
  assumes gf: "generateFallbackTiles enc this (cubeFaces img c) fallbackSize = Inr fb"
  shows "distinct (map tile_path fb)"
    and "\<forall>t \<in> set fb. tile_path t \<noteq> ''config.json'' \<and> hd (tile_path t) = CHR ''f''"
proof -
  have m: "map tile_path fb = map (fallbackPath (tiler_imageFormat this)) FACE_NAMES"
    by (rule fallback_paths[OF gf])
  show "distinct (map tile_path fb)"
    unfolding m by (simp add: FACE_NAMES_def fallbackPath_def)
  have "\<forall>p \<in> set (map tile_path fb). p \<noteq> ''config.json'' \<and> hd p = CHR ''f''"
    unfolding m by (simp add: FACE_NAMES_def fallbackPath_def)
  then show "\<forall>t \<in> set fb. tile_path t \<noteq> ''config.json'' \<and> hd (tile_path t) = CHR ''f''"
    by simp
qed

text \<open>
  C9. When \<open>fallbackTiles\<close> is set, every successful call has generated its fallback tiles
  with the literal output size 1024, whatever the configuration says: exactly six tiles,
  one per face in the order f, r, b, l, u, d, at level 0, each encoded from the whole face
  at the output size 1024. They follow the pyramid tiles (levels from 1 up) in the result
  of every output mode: in the tile list of a raw result, in the items of a stream after
  the descriptor, and as the last six entries of an archive, after \<open>config.json\<close> and the
  entries of the pyramid tiles.
\<close>

theorem fallback_fixed_size:
  "process env this config w = (Inr result, w') \<and> cfg_fallbackTiles config = Some True \<longrightarrow>
   (\<exists>d md img pyr fb wa ws.
       env_loadImage env (cfg_sourceImage config) = Inr img
     \<and> generateTilePyramid (env_encode env) (tilerOf config)
          (cubeFaces img (md_cubeResolution md)) (md_tileSize md) (levelOf (md_maxLevel md))
          (Some (progressBroadcast this (cfg_onProgress config))) wa = (Inr pyr, ws)
     \<and> generateFallbackTiles (env_encode env) (tilerOf config)
          (cubeFaces img (md_cubeResolution md)) 1024 = Inr fb
     \<and> (cfg_output config = Some ''raw'' \<or> cfg_output config = Some ''stream''
          \<or> cfg_output config = Some ''zip'')
     \<and> (cfg_output config = Some ''raw'' \<longrightarrow> result = RawResult d (pyr @ fb) md)
     \<and> (cfg_output config = Some ''stream''
          \<longrightarrow> result = StreamResult d (ConfigItem ''config.json'' d # map tileItem (pyr @ fb)) md)
     \<and> (cfg_output config = Some ''zip''
          \<longrightarrow> (\<exists>pyrEntries.
                 result = ZipResult ((''config.json'', ConfigEntry d) # pyrEntries
                                       @ map tileEntry fb) md
               \<and> fst ` set pyrEntries = tile_path ` set pyr
               \<and> set pyrEntries \<subseteq> tileEntry ` set pyr))
     \<and> md_totalTiles md = length pyr + 6
     \<and> (\<forall>tle \<in> set pyr. 1 \<le> tile_level tle)
     \<and> length fb = 6
     \<and> (\<forall>i < 6.
           tile_level (fb ! i) = 0 \<and> tile_face (fb ! i) = FACE_NAMES ! i
         \<and> tile_path (fb ! i) = fallbackPath (tiler_imageFormat (tilerOf config)) (FACE_NAMES ! i)
         \<and> env_encode env
              \<lparr> rq_source = FaceCanvas img (FACE_CONFIGS ! i) (md_cubeResolution md),
                rq_sx = 0, rq_sy = 0,
                rq_sw = md_cubeResolution md, rq_sh = md_cubeResolution md,
                rq_outputSize = 1024,
                rq_mimeType = (if tiler_imageFormat (tilerOf config) = Webp then ''image/webp''
                               else ''image/jpeg''),
                rq_quality = tiler_quality (tilerOf config) \<rparr> = Some (tile_blob (fb ! i))))"
proof
  assume a: "process env this config w = (Inr result, w') \<and> cfg_fallbackTiles config = Some True"
  then have fbo: "fallbackOf config" by (simp add: fallbackOf_def)
  from a process_Inr[of env this config w result w'] obtain allTiles d md ws where
    st: "processStages env this config w = (Inr (allTiles, d, md), ws)"
    and v: "validateConfig config = None"
    and raw: "cfg_output config = Some ''raw'' \<longrightarrow> result = RawResult d allTiles md"
    and str: "cfg_output config = Some ''stream''
                \<longrightarrow> result = StreamResult d (createTileStream allTiles d) md"
    and zip: "cfg_output config = Some ''zip''
         \<longrightarrow> result = ZipResult (foldl (\<lambda>fs t. assign (tile_path t) (TileEntry (tile_blob t)) fs)
                                       [(''config.json'', ConfigEntry d)] allTiles) md"
    by blast
  from processStages_Inr[OF st] fbo obtain img pyr fb wa where
    img: "env_loadImage env (cfg_sourceImage config) = Inr img"
    and gp: "generateTilePyramid (env_encode env) (tilerOf config)
         (cubeFaces img (md_cubeResolution md)) (md_tileSize md) (levelOf (md_maxLevel md))
         (Some (progressBroadcast this (cfg_onProgress config))) wa = (Inr pyr, ws)"
    and gf: "generateFallbackTiles (env_encode env) (tilerOf config)
               (cubeFaces img (md_cubeResolution md)) 1024 = Inr fb"
    and at: "allTiles = pyr @ fb"
    and tt: "md_totalTiles md = length allTiles"
    by auto
  note f = fallback_tiles_of_cubeFaces[OF gf]
  have lv: "\<forall>tle \<in> set pyr. 1 \<le> tile_level tle"
    using pyramid_levels_positive[OF gp] by blast
  have tt': "md_totalTiles md = length pyr + 6" using tt at f by simp
  have out: "cfg_output config = Some ''raw'' \<or> cfg_output config = Some ''stream''
             \<or> cfg_output config = Some ''zip''"
    using v by (auto simp: validateConfig_def split: if_splits)
  have raw': "cfg_output config = Some ''raw'' \<longrightarrow> result = RawResult d (pyr @ fb) md"
    using raw at by simp
  have str': "cfg_output config = Some ''stream''
          \<longrightarrow> result = StreamResult d (ConfigItem ''config.json'' d # map tileItem (pyr @ fb)) md"
    using str at by (simp add: createTileStream_def tileItem_def[abs_def])
  have ph: "\<forall>t \<in> set pyr. tile_path t \<noteq> [] \<and> hd (tile_path t) \<in> set ''0123456789''"
    using pyramid_path_head[OF gp] by blast
  have p1: "\<forall>t \<in> set pyr. tile_path t \<noteq> ''config.json''"
    using ph by auto
  have f1: "distinct (map tile_path fb)" by (rule fallback_paths_fresh(1)[OF gf])
  have f2: "\<forall>t \<in> set fb. tile_path t \<noteq> ''config.json'' \<and> hd (tile_path t) = CHR ''f''"
    by (rule fallback_paths_fresh(2)[OF gf])
  have pf: "\<forall>t \<in> set fb. tile_path t \<noteq> ''config.json'' \<and> tile_path t \<notin> tile_path ` set pyr"
  proof
    fix t assume t: "t \<in> set fb"
    have "tile_path t \<noteq> tile_path u" if "u \<in> set pyr" for u
    proof
      assume e: "tile_path t = tile_path u"
      have "hd (tile_path u) \<in> set ''0123456789''" using ph that by blast
      moreover have "hd (tile_path u) = CHR ''f''" using f2 t e by metis
      ultimately show False by simp
    qed
    then show "tile_path t \<noteq> ''config.json'' \<and> tile_path t \<notin> tile_path ` set pyr"
      using f2 t by auto
  qed
  from archive_entries[OF p1 f1 pf, of d] obtain pyrEntries where
    ae: "foldl (\<lambda>fs t. assign (tile_path t) (TileEntry (tile_blob t)) fs)
           [(''config.json'', ConfigEntry d)] (pyr @ fb)
       = (''config.json'', ConfigEntry d) # pyrEntries @ map tileEntry fb"
    and k: "fst ` set pyrEntries = tile_path ` set pyr"
    and s: "set pyrEntries \<subseteq> tileEntry ` set pyr"
    by blast
  have zip': "cfg_output config = Some ''zip''
          \<longrightarrow> (\<exists>pyrEntries.
                 result = ZipResult ((''config.json'', ConfigEntry d) # pyrEntries
                                       @ map tileEntry fb) md
               \<and> fst ` set pyrEntries = tile_path ` set pyr
               \<and> set pyrEntries \<subseteq> tileEntry ` set pyr)"
    using zip at ae k s by auto
  have six: "\<forall>i < 6.
           tile_level (fb ! i) = 0 \<and> tile_face (fb ! i) = FACE_NAMES ! i
         \<and> tile_path (fb ! i) = fallbackPath (tiler_imageFormat (tilerOf config)) (FACE_NAMES ! i)
         \<and> env_encode env
              \<lparr> rq_source = FaceCanvas img (FACE_CONFIGS ! i) (md_cubeResolution md),
                rq_sx = 0, rq_sy = 0,
                rq_sw = md_cubeResolution md, rq_sh = md_cubeResolution md,
                rq_outputSize = 1024,
                rq_mimeType = (if tiler_imageFormat (tilerOf config) = Webp then ''image/webp''
                               else ''image/jpeg''),
                rq_quality = tiler_quality (tilerOf config) \<rparr> = Some (tile_blob (fb ! i))"
    using f by simp
  have len: "length fb = 6" using f by simp
  show "\<exists>d md img pyr fb wa ws.
       env_loadImage env (cfg_sourceImage config) = Inr img
     \<and> generateTilePyramid (env_encode env) (tilerOf config)
          (cubeFaces img (md_cubeResolution md)) (md_tileSize md) (levelOf (md_maxLevel md))
          (Some (progressBroadcast this (cfg_onProgress config))) wa = (Inr pyr, ws)
     \<and> generateFallbackTiles (env_encode env) (tilerOf config)
          (cubeFaces img (md_cubeResolution md)) 1024 = Inr fb
     \<and> (cfg_output config = Some ''raw'' \<or> cfg_output config = Some ''stream''
          \<or> cfg_output config = Some ''zip'')
     \<and> (cfg_output config = Some ''raw'' \<longrightarrow> result = RawResult d (pyr @ fb) md)
     \<and> (cfg_output config = Some ''stream''
          \<longrightarrow> result = StreamResult d (ConfigItem ''config.json'' d # map tileItem (pyr @ fb)) md)
     \<and> (cfg_output config = Some ''zip''
          \<longrightarrow> (\<exists>pyrEntries.
                 result = ZipResult ((''config.json'', ConfigEntry d) # pyrEntries
                                       @ map tileEntry fb) md
               \<and> fst ` set pyrEntries = tile_path ` set pyr
               \<and> set pyrEntries \<subseteq> tileEntry ` set pyr))
     \<and> md_totalTiles md = length pyr + 6
     \<and> (\<forall>tle \<in> set pyr. 1 \<le> tile_level tle)
     \<and> length fb = 6
     \<and> (\<forall>i < 6.
           tile_level (fb ! i) = 0 \<and> tile_face (fb ! i) = FACE_NAMES ! i
         \<and> tile_path (fb ! i) = fallbackPath (tiler_imageFormat (tilerOf config)) (FACE_NAMES ! i)
         \<and> env_encode env
              \<lparr> rq_source = FaceCanvas img (FACE_CONFIGS ! i) (md_cubeResolution md),
                rq_sx = 0, rq_sy = 0,
                rq_sw = md_cubeResolution md, rq_sh = md_cubeResolution md,
                rq_outputSize = 1024,
                rq_mimeType = (if tiler_imageFormat (tilerOf config) = Webp then ''image/webp''
                               else ''image/jpeg''),
                rq_quality = tiler_quality (tilerOf config) \<rparr> = Some (tile_blob (fb ! i)))"
    apply (rule exI[of _ d], rule exI[of _ md], rule exI[of _ img], rule exI[of _ pyr],
           rule exI[of _ fb], rule exI[of _ wa], rule exI[of _ ws])
    apply (intro conjI)
    apply (rule img, rule gp, rule gf, rule out, rule raw', rule str', rule zip', rule tt',
           rule lv, rule len, rule six)
    done
qed

theorem fallback_fixed_size_witness:
  "(\<exists>result w' d md pyr fb.
      process sample_env (new_PannellumTiler None None) fallback_config new_world = (Inr result, w')
    \<and> cfg_fallbackTiles fallback_config = Some True
    \<and> result = RawResult d (pyr @ fb) md
    \<and> (\<forall>tle \<in> set pyr. 1 \<le> tile_level tle) \<and> length fb = 6
    \<and> (\<forall>i < 6. tile_level (fb ! i) = 0 \<and> tile_path (fb ! i) = fallbackPath Jpeg (FACE_NAMES ! i)
                 \<and> tile_blob (fb ! i) = [1]))
 \<and> (\<exists>result w' d md pyr fb.
      process sample_env (new_PannellumTiler None None) stream_fallback_config new_world
        = (Inr result, w')
    \<and> cfg_fallbackTiles stream_fallback_config = Some True
    \<and> result = StreamResult d (ConfigItem ''config.json'' d # map tileItem (pyr @ fb)) md
    \<and> (\<forall>tle \<in> set pyr. 1 \<le> tile_level tle) \<and> length fb = 6
    \<and> (\<forall>i < 6. tile_level (fb ! i) = 0 \<and> tile_path (fb ! i) = fallbackPath Jpeg (FACE_NAMES ! i)
                 \<and> tile_blob (fb ! i) = [1]))
 \<and> (\<exists>result w' d md (pyr :: tile list) fb pyrEntries.
      process sample_env (new_PannellumTiler None None) zip_fallback_config new_world
        = (Inr result, w')
    \<and> cfg_fallbackTiles zip_fallback_config = Some True
    \<and> result = ZipResult ((''config.json'', ConfigEntry d) # pyrEntries @ map tileEntry fb) md
    \<and> fst ` set pyrEntries = tile_path ` set pyr
    \<and> (\<forall>tle \<in> set pyr. 1 \<le> tile_level tle) \<and> length fb = 6
    \<and> (\<forall>i < 6. tile_level (fb ! i) = 0 \<and> tile_path (fb ! i) = fallbackPath Jpeg (FACE_NAMES ! i)
                 \<and> tile_blob (fb ! i) = [1]))"
proof -
  let ?T = "new_PannellumTiler None None"
  have key: "\<exists>d md pyr fb.
      (out = ''raw'' \<longrightarrow> result = RawResult d (pyr @ fb) md)
    \<and> (out = ''stream''
          \<longrightarrow> result = StreamResult d (ConfigItem ''config.json'' d # map tileItem (pyr @ fb)) md)
    \<and> (out = ''zip''
          \<longrightarrow> (\<exists>pyrEntries.
                 result = ZipResult ((''config.json'', ConfigEntry d) # pyrEntries
                                       @ map tileEntry fb) md
               \<and> fst ` set pyrEntries = tile_path ` set pyr))
    \<and> (\<forall>tle \<in> set pyr. 1 \<le> tile_level tle) \<and> length fb = 6
    \<and> (\<forall>i < 6. tile_level (fb ! i) = 0 \<and> tile_path (fb ! i) = fallbackPath Jpeg (FACE_NAMES ! i)
                 \<and> tile_blob (fb ! i) = [1])"
    if c: "cfg = sample_config\<lparr>cfg_fallbackTiles := Some True, cfg_output := Some out\<rparr>"
      and run: "process sample_env ?T cfg new_world = (Inr result, w')"
    for cfg out result w'
  proof -
    have fbt: "cfg_fallbackTiles cfg = Some True" by (simp add: c)
    have fmt: "tiler_imageFormat (tilerOf cfg) = Jpeg"
      by (simp add: c tilerOf_def new_Tiler_def sample_config_def)
    have co: "cfg_output cfg = Some out" by (simp add: c)
    from fallback_fixed_size[of sample_env ?T cfg new_world result w', THEN mp,
           OF conjI[OF run fbt]]
    obtain d md img pyr fb wa ws where big: "
       env_loadImage sample_env (cfg_sourceImage cfg) = Inr img
     \<and> generateTilePyramid (env_encode sample_env) (tilerOf cfg)
          (cubeFaces img (md_cubeResolution md)) (md_tileSize md) (levelOf (md_maxLevel md))
          (Some (progressBroadcast ?T (cfg_onProgress cfg))) wa = (Inr pyr, ws)
     \<and> generateFallbackTiles (env_encode sample_env) (tilerOf cfg)
          (cubeFaces img (md_cubeResolution md)) 1024 = Inr fb
     \<and> (cfg_output cfg = Some ''raw'' \<or> cfg_output cfg = Some ''stream''
          \<or> cfg_output cfg = Some ''zip'')
     \<and> (cfg_output cfg = Some ''raw'' \<longrightarrow> result = RawResult d (pyr @ fb) md)
     \<and> (cfg_output cfg = Some ''stream''
          \<longrightarrow> result = StreamResult d (ConfigItem ''config.json'' d # map tileItem (pyr @ fb)) md)
     \<and> (cfg_output cfg = Some ''zip''
          \<longrightarrow> (\<exists>pyrEntries.
                 result = ZipResult ((''config.json'', ConfigEntry d) # pyrEntries
                                       @ map tileEntry fb) md
               \<and> fst ` set pyrEntries = tile_path ` set pyr
               \<and> set pyrEntries \<subseteq> tileEntry ` set pyr))
     \<and> md_totalTiles md = length pyr + 6
     \<and> (\<forall>tle \<in> set pyr. 1 \<le> tile_level tle)
     \<and> length fb = 6
     \<and> (\<forall>i < 6.
           tile_level (fb ! i) = 0 \<and> tile_face (fb ! i) = FACE_NAMES ! i
         \<and> tile_path (fb ! i) = fallbackPath (tiler_imageFormat (tilerOf cfg)) (FACE_NAMES ! i)
         \<and> env_encode sample_env
              \<lparr> rq_source = FaceCanvas img (FACE_CONFIGS ! i) (md_cubeResolution md),
                rq_sx = 0, rq_sy = 0,
                rq_sw = md_cubeResolution md, rq_sh = md_cubeResolution md,
                rq_outputSize = 1024,
                rq_mimeType = (if tiler_imageFormat (tilerOf cfg) = Webp then ''image/webp''
                               else ''image/jpeg''),
                rq_quality = tiler_quality (tilerOf cfg) \<rparr> = Some (tile_blob (fb ! i)))"
      by (elim exE) (erule that)
    have raw: "out = ''raw'' \<longrightarrow> result = RawResult d (pyr @ fb) md"
      using big co by simp
    have str: "out = ''stream''
          \<longrightarrow> result = StreamResult d (ConfigItem ''config.json'' d # map tileItem (pyr @ fb)) md"
      using big co by simp
    have zip: "out = ''zip''
          \<longrightarrow> (\<exists>pyrEntries.
                 result = ZipResult ((''config.json'', ConfigEntry d) # pyrEntries
                                       @ map tileEntry fb) md
               \<and> fst ` set pyrEntries = tile_path ` set pyr)"
    proof
      assume "out = ''zip''"
      then have "\<exists>pyrEntries.
                 result = ZipResult ((''config.json'', ConfigEntry d) # pyrEntries
                                       @ map tileEntry fb) md
               \<and> fst ` set pyrEntries = tile_path ` set pyr
               \<and> set pyrEntries \<subseteq> tileEntry ` set pyr"
        using big co by simp
      then show "\<exists>pyrEntries.
                 result = ZipResult ((''config.json'', ConfigEntry d) # pyrEntries
                                       @ map tileEntry fb) md
               \<and> fst ` set pyrEntries = tile_path ` set pyr"
        by (elim exE conjE) (intro exI conjI)
    qed
    have lv: "\<forall>tle \<in> set pyr. 1 \<le> tile_level tle" using big by simp
    have len: "length fb = 6" using big by simp
    have six: "\<forall>i < 6.
           tile_level (fb ! i) = 0 \<and> tile_face (fb ! i) = FACE_NAMES ! i
         \<and> tile_path (fb ! i) = fallbackPath (tiler_imageFormat (tilerOf cfg)) (FACE_NAMES ! i)
         \<and> env_encode sample_env
              \<lparr> rq_source = FaceCanvas img (FACE_CONFIGS ! i) (md_cubeResolution md),
                rq_sx = 0, rq_sy = 0,
                rq_sw = md_cubeResolution md, rq_sh = md_cubeResolution md,
                rq_outputSize = 1024,
                rq_mimeType = (if tiler_imageFormat (tilerOf cfg) = Webp then ''image/webp''
                               else ''image/jpeg''),
                rq_quality = tiler_quality (tilerOf cfg) \<rparr> = Some (tile_blob (fb ! i))"
      using big by simp
    have six': "\<forall>i < 6. tile_level (fb ! i) = 0
                 \<and> tile_path (fb ! i) = fallbackPath Jpeg (FACE_NAMES ! i)
                 \<and> tile_blob (fb ! i) = [1]"
      using six unfolding fmt by (simp add: sample_env_def sample_encoder_def)
    show ?thesis
      apply (rule exI[of _ d], rule exI[of _ md], rule exI[of _ pyr], rule exI[of _ fb])
      apply (intro conjI)
      apply (rule raw, rule str, rule zip, rule lv, rule len, rule six')
      done
  qed
  have c1: "fallback_config
              = sample_config\<lparr>cfg_fallbackTiles := Some True, cfg_output := Some ''raw''\<rparr>"
    by (simp add: fallback_config_def sample_config_def)
  have c2: "stream_fallback_config
              = sample_config\<lparr>cfg_fallbackTiles := Some True, cfg_output := Some ''stream''\<rparr>"
    by (simp add: stream_fallback_config_def fallback_config_def sample_config_def)
  have c3: "zip_fallback_config
              = sample_config\<lparr>cfg_fallbackTiles := Some True, cfg_output := Some ''zip''\<rparr>"
    by (simp add: zip_fallback_config_def fallback_config_def sample_config_def)
  have f1: "cfg_fallbackTiles fallback_config = Some True" by (simp add: c1)
  have f2: "cfg_fallbackTiles stream_fallback_config = Some True" by (simp add: c2)
  have f3: "cfg_fallbackTiles zip_fallback_config = Some True" by (simp add: c3)
  have r1: "\<exists>result w' d md pyr fb.
      process sample_env ?T fallback_config new_world = (Inr result, w')
    \<and> cfg_fallbackTiles fallback_config = Some True
    \<and> result = RawResult d (pyr @ fb) md
    \<and> (\<forall>tle \<in> set pyr. 1 \<le> tile_level tle) \<and> length fb = 6
    \<and> (\<forall>i < 6. tile_level (fb ! i) = 0 \<and> tile_path (fb ! i) = fallbackPath Jpeg (FACE_NAMES ! i)
                 \<and> tile_blob (fb ! i) = [1])"
  proof -
    obtain result w' where run: "process sample_env ?T fallback_config new_world = (Inr result, w')"
      using sample_run[OF c1] by blast
    from key[OF c1 run] obtain d md pyr fb where
      k: "(''raw'' = ''raw'' \<longrightarrow> result = RawResult d (pyr @ fb) md)
    \<and> (''raw'' = ''stream''
          \<longrightarrow> result = StreamResult d (ConfigItem ''config.json'' d # map tileItem (pyr @ fb)) md)
    \<and> (''raw'' = ''zip''
          \<longrightarrow> (\<exists>pyrEntries.
                 result = ZipResult ((''config.json'', ConfigEntry d) # pyrEntries
                                       @ map tileEntry fb) md
               \<and> fst ` set pyrEntries = tile_path ` set pyr))
    \<and> (\<forall>tle \<in> set pyr. 1 \<le> tile_level tle) \<and> length fb = 6
    \<and> (\<forall>i < 6. tile_level (fb ! i) = 0 \<and> tile_path (fb ! i) = fallbackPath Jpeg (FACE_NAMES ! i)
                 \<and> tile_blob (fb ! i) = [1])"
      by (elim exE) (erule that)
    then have "result = RawResult d (pyr @ fb) md" and "(\<forall>tle \<in> set pyr. 1 \<le> tile_level tle) \<and> length fb = 6
    \<and> (\<forall>i < 6. tile_level (fb ! i) = 0 \<and> tile_path (fb ! i) = fallbackPath Jpeg (FACE_NAMES ! i)
                 \<and> tile_blob (fb ! i) = [1])" by simp_all
    then show ?thesis using run f1
      apply -
      apply (rule exI[of _ result], rule exI[of _ w'], rule exI[of _ d], rule exI[of _ md], rule exI[of _ pyr], rule exI[of _ fb])
      apply simp
      done
  qed
  have r2: "\<exists>result w' d md pyr fb.
      process sample_env ?T stream_fallback_config new_world = (Inr result, w')
    \<and> cfg_fallbackTiles stream_fallback_config = Some True
    \<and> result = StreamResult d (ConfigItem ''config.json'' d # map tileItem (pyr @ fb)) md
    \<and> (\<forall>tle \<in> set pyr. 1 \<le> tile_level tle) \<and> length fb = 6
    \<and> (\<forall>i < 6. tile_level (fb ! i) = 0 \<and> tile_path (fb ! i) = fallbackPath Jpeg (FACE_NAMES ! i)
                 \<and> tile_blob (fb ! i) = [1])"
  proof -
    obtain result w' where
      run: "process sample_env ?T stream_fallback_config new_world = (Inr result, w')"
      using sample_run[OF c2] by blast
    from key[OF c2 run] obtain d md pyr fb where
      k: "(''stream'' = ''raw'' \<longrightarrow> result = RawResult d (pyr @ fb) md)
    \<and> (''stream'' = ''stream''
          \<longrightarrow> result = StreamResult d (ConfigItem ''config.json'' d # map tileItem (pyr @ fb)) md)
    \<and> (''stream'' = ''zip''
          \<longrightarrow> (\<exists>pyrEntries.
                 result = ZipResult ((''config.json'', ConfigEntry d) # pyrEntries
                                       @ map tileEntry fb) md
               \<and> fst ` set pyrEntries = tile_path ` set pyr))
    \<and> (\<forall>tle \<in> set pyr. 1 \<le> tile_level tle) \<and> length fb = 6
    \<and> (\<forall>i < 6. tile_level (fb ! i) = 0 \<and> tile_path (fb ! i) = fallbackPath Jpeg (FACE_NAMES ! i)
                 \<and> tile_blob (fb ! i) = [1])"
      by (elim exE) (erule that)
    then have "result = StreamResult d (ConfigItem ''config.json'' d # map tileItem (pyr @ fb)) md"
      and "(\<forall>tle \<in> set pyr. 1 \<le> tile_level tle) \<and> length fb = 6
    \<and> (\<forall>i < 6. tile_level (fb ! i) = 0 \<and> tile_path (fb ! i) = fallbackPath Jpeg (FACE_NAMES ! i)
                 \<and> tile_blob (fb ! i) = [1])" by simp_all
    then show ?thesis using run f2
      apply -
      apply (rule exI[of _ result], rule exI[of _ w'], rule exI[of _ d], rule exI[of _ md], rule exI[of _ pyr], rule exI[of _ fb])
      apply simp
      done
  qed
  have r3: "\<exists>result w' d md (pyr :: tile list) fb pyrEntries.
      process sample_env ?T zip_fallback_config new_world = (Inr result, w')
    \<and> cfg_fallbackTiles zip_fallback_config = Some True
    \<and> result = ZipResult ((''config.json'', ConfigEntry d) # pyrEntries @ map tileEntry fb) md
    \<and> fst ` set pyrEntries = tile_path ` set pyr
    \<and> (\<forall>tle \<in> set pyr. 1 \<le> tile_level tle) \<and> length fb = 6
    \<and> (\<forall>i < 6. tile_level (fb ! i) = 0 \<and> tile_path (fb ! i) = fallbackPath Jpeg (FACE_NAMES ! i)
                 \<and> tile_blob (fb ! i) = [1])"
  proof -
    obtain result w' where
      run: "process sample_env ?T zip_fallback_config new_world = (Inr result, w')"
      using sample_run[OF c3] by blast
    from key[OF c3 run] obtain d md pyr fb where
      k: "(''zip'' = ''raw'' \<longrightarrow> result = RawResult d (pyr @ fb) md)
    \<and> (''zip'' = ''stream''
          \<longrightarrow> result = StreamResult d (ConfigItem ''config.json'' d # map tileItem (pyr @ fb)) md)
    \<and> (''zip'' = ''zip''
          \<longrightarrow> (\<exists>pyrEntries.
                 result = ZipResult ((''config.json'', ConfigEntry d) # pyrEntries
                                       @ map tileEntry fb) md
               \<and> fst ` set pyrEntries = tile_path ` set pyr))
    \<and> (\<forall>tle \<in> set pyr. 1 \<le> tile_level tle) \<and> length fb = 6
    \<and> (\<forall>i < 6. tile_level (fb ! i) = 0 \<and> tile_path (fb ! i) = fallbackPath Jpeg (FACE_NAMES ! i)
                 \<and> tile_blob (fb ! i) = [1])"
      by (elim exE) (erule that)
    then obtain pyrEntries where
      "result = ZipResult ((''config.json'', ConfigEntry d) # pyrEntries @ map tileEntry fb) md"
      and "fst ` set pyrEntries = tile_path ` set pyr" and "(\<forall>tle \<in> set pyr. 1 \<le> tile_level tle) \<and> length fb = 6
    \<and> (\<forall>i < 6. tile_level (fb ! i) = 0 \<and> tile_path (fb ! i) = fallbackPath Jpeg (FACE_NAMES ! i)
                 \<and> tile_blob (fb ! i) = [1])"
      by auto
    then show ?thesis using run f3
      apply -
      apply (rule exI[of _ result], rule exI[of _ w'], rule exI[of _ d], rule exI[of _ md], rule exI[of _ pyr], rule exI[of _ fb], rule exI[of _ pyrEntries])
      apply simp
      done
  qed
  show ?thesis using r1 r2 r3 by (intro conjI)
qed

subsection \<open>The stream\<close>

lemma itemKeys_tiles: "itemKeys (map tileItem tiles) = map tileKey tiles"
  by (induction tiles) (simp_all add: tileItem_def tileKey_def)

lemma createTileStream_items:
  "createTileStream tiles d = ConfigItem ''config.json'' d # map tileItem tiles"
  by (simp add: createTileStream_def tileItem_def[abs_def])

lemma validateConfig_output:
  "validateConfig config = None \<Longrightarrow>
   cfg_output config = Some ''zip'' \<or> cfg_output config = Some ''raw''
   \<or> cfg_output config = Some ''stream''"
  by (auto simp: validateConfig_def split: if_splits)

lemma validateConfig_raw:
  "validateConfig config = None \<Longrightarrow> validateConfig (config\<lparr>cfg_output := Some ''raw''\<rparr>) = None"
  by (auto simp: validateConfig_def split: if_splits)

lemma processStages_output:
  "processStages env this (config\<lparr>cfg_output := out\<rparr>) w = processStages env this config w"
  unfolding processStages_def
  by (simp cong: sum.case_cong option.case_cong prod.case_cong if_cong)

lemma fallback_keys:
  assumes "generateFallbackTiles enc this (cubeFaces img c) fallbackSize = Inr fb"
  shows "map tileKey fb = map (\<lambda>f. (f, 0, 0, 0)) FACE_NAMES"
proof (rule nth_equalityI)
  note f = fallback_tiles_of_cubeFaces[OF assms]
  show "length (map tileKey fb) = length (map (\<lambda>f. (f, 0, 0, 0)) FACE_NAMES)"
    using f by (simp add: FACE_NAMES_def)
  fix i assume "i < length (map tileKey fb)"
  then have i: "i < 6" using f by simp
  then have "i < length FACE_NAMES" by (simp add: FACE_NAMES_def)
  then show "map tileKey fb ! i = map (\<lambda>f. (f, 0, 0, 0)) FACE_NAMES ! i"
    using f i by (simp add: tileKey_def)
qed

lemma stream_structure:
  assumes "process env this config w = (Inr (StreamResult d items md), w')"
  shows "\<exists>tiles. items = ConfigItem ''config.json'' d # map tileItem tiles
    \<and> map tileKey tiles
        = pyramidOrder FACE_NAMES (md_cubeResolution md) (md_tileSize md) (levelOf (md_maxLevel md))
          @ (if fallbackOf config then map (\<lambda>f. (f, 0, 0, 0)) FACE_NAMES else [])
    \<and> process env this (config\<lparr>cfg_output := Some ''raw''\<rparr>) w = (Inr (RawResult d tiles md), w')
    \<and> length items = length tiles + 1"
proof -
  from assms have nd: "\<not> disposed this" unfolding process_def by (auto split: if_splits)
  from process_Inr[OF assms] obtain allTiles d0 md0 ws where
    st: "processStages env this config w = (Inr (allTiles, d0, md0), ws)"
    and v: "validateConfig config = None"
    and raw: "cfg_output config = Some ''raw'' \<longrightarrow> StreamResult d items md = RawResult d0 allTiles md0"
    and str: "cfg_output config = Some ''stream''
                \<longrightarrow> StreamResult d items md = StreamResult d0 (createTileStream allTiles d0) md0
                    \<and> ws = w'"
    and zip: "cfg_output config = Some ''zip''
                \<longrightarrow> (\<exists>entries. StreamResult d items md = ZipResult entries md0)"
    by blast
  from validateConfig_output[OF v] raw zip have out: "cfg_output config = Some ''stream''" by auto
  with str have d: "d0 = d" and md: "md0 = md" and items: "items = createTileStream allTiles d"
    and ws: "ws = w'" by auto
  from processStages_Inr[OF st] obtain img pyr fb wa where
    gp: "generateTilePyramid (env_encode env) (tilerOf config)
         (cubeFaces img (md_cubeResolution md)) (md_tileSize md) (levelOf (md_maxLevel md))
         (Some (progressBroadcast this (cfg_onProgress config))) wa = (Inr pyr, ws)"
    and gf: "if fallbackOf config
        then generateFallbackTiles (env_encode env) (tilerOf config)
               (cubeFaces img (md_cubeResolution md)) 1024 = Inr fb
        else fb = []"
    and at: "allTiles = pyr @ fb"
    unfolding md by blast
  have pk: "map tileKey pyr = pyramidOrder FACE_NAMES (md_cubeResolution md) (md_tileSize md)
                                (levelOf (md_maxLevel md))"
    using pyramid_keys[OF gp cubeFaces_resolution] by (simp add: cubeFaces_names)
  have fk: "map tileKey fb = (if fallbackOf config then map (\<lambda>f. (f, 0, 0, 0)) FACE_NAMES else [])"
    using gf fallback_keys by (auto split: if_splits)
  have r: "process env this (config\<lparr>cfg_output := Some ''raw''\<rparr>) w
             = (Inr (RawResult d allTiles md), w')"
    using nd validateConfig_raw[OF v] st d md ws
    unfolding process_def processTry_def Let_def
    by (simp add: processStages_output buildRawResult_def)
  show ?thesis
    using items pk fk at r by (intro exI[of _ allTiles]) (simp add: createTileStream_items)
qed

lemma stream_fallback_run:
  "\<exists>d items md w'.
     process sample_env (new_PannellumTiler None None) stream_fallback_config new_world
       = (Inr (StreamResult d items md), w')
   \<and> md_cubeResolution md = 1 \<and> md_tileSize md = 1 \<and> md_maxLevel md = Some 1"
proof -
  have c: "stream_fallback_config
             = sample_config\<lparr>cfg_fallbackTiles := Some True, cfg_output := Some ''stream''\<rparr>"
    by (simp add: stream_fallback_config_def fallback_config_def)
  obtain result w' where
    run: "process sample_env (new_PannellumTiler None None) stream_fallback_config new_world
            = (Inr result, w')"
    using sample_run[OF c] by blast
  from process_Inr[OF run] obtain allTiles d md ws where
    st: "processStages sample_env (new_PannellumTiler None None) stream_fallback_config new_world
           = (Inr (allTiles, d, md), ws)"
    and r: "result = StreamResult d (createTileStream allTiles d) md"
    by (auto simp: c)
  from processStages_Inr[OF st] have
    "md_cubeResolution md = 1 \<and> md_tileSize md = 1 \<and> md_maxLevel md = Some 1"
    by (auto simp: c sample_config_def cubeResolutionOf_def tileSizeOf_def)
  with run r show ?thesis by blast
qed

lemma sample_pyramidOrder:
  "pyramidOrder FACE_NAMES 1 1 1
     = [(''f'', 1, 0, 0), (''r'', 1, 0, 0), (''b'', 1, 0, 0), (''l'', 1, 0, 0), (''u'', 1, 0, 0),
        (''d'', 1, 0, 0)]"
  by code_simp

theorem stream_face_major_counterexample:
  "itemKeys (streamOf (process sample_env (new_PannellumTiler None None) stream_fallback_config
                         new_world))
     = [(''f'', 1, 0, 0), (''r'', 1, 0, 0), (''b'', 1, 0, 0), (''l'', 1, 0, 0), (''u'', 1, 0, 0),
        (''d'', 1, 0, 0), (''f'', 0, 0, 0), (''r'', 0, 0, 0), (''b'', 0, 0, 0), (''l'', 0, 0, 0),
        (''u'', 0, 0, 0), (''d'', 0, 0, 0)]
   \<and> itemKeys (streamOf (process sample_env (new_PannellumTiler None None) stream_fallback_config
                           new_world))
       \<noteq> pyramidOrder FACE_NAMES 1 1 1"
proof -
  obtain d items md w' where
    run: "process sample_env (new_PannellumTiler None None) stream_fallback_config new_world
            = (Inr (StreamResult d items md), w')"
    and md: "md_cubeResolution md = 1" "md_tileSize md = 1" "md_maxLevel md = Some 1"
    using stream_fallback_run by blast
  have fb: "fallbackOf stream_fallback_config"
    by (simp add: fallbackOf_def stream_fallback_config_def fallback_config_def)
  from stream_structure[OF run] obtain tiles where
    items: "items = ConfigItem ''config.json'' d # map tileItem tiles"
    and keys: "map tileKey tiles
        = pyramidOrder FACE_NAMES 1 1 1 @ map (\<lambda>f. (f, 0, 0, 0)) FACE_NAMES"
    using fb by (auto simp: md levelOf_def)
  have "itemKeys (streamOf (process sample_env (new_PannellumTiler None None)
                              stream_fallback_config new_world))
          = pyramidOrder FACE_NAMES 1 1 1 @ map (\<lambda>f. (f, 0, 0, 0)) FACE_NAMES"
    unfolding run by (simp add: streamOf_def items itemKeys_tiles keys)
  then show ?thesis
    unfolding sample_pyramidOrder by (simp add: FACE_NAMES_def)
qed

text \<open>
  C7, as amended. A finished call in stream mode yields the descriptor first and then the
  tiles of the raw result of the same call, each once and in the same order: the pyramid
  tiles face-major over f, r, b, l, u, d, levels descending from \<open>maxLevel\<close> to 1 within a
  face and row-major within a level, followed, when \<open>fallbackTiles\<close> is set, by the six
  level-0 fallback tiles in face order. The stream is one item longer than the raw tile list.
\<close>

theorem stream_order:
  "process env this config w = (Inr (StreamResult d items md), w') \<longrightarrow>
   (\<exists>tiles. items = ConfigItem ''config.json'' d # map tileItem tiles
    \<and> map tileKey tiles
        = pyramidOrder FACE_NAMES (md_cubeResolution md) (md_tileSize md) (levelOf (md_maxLevel md))
          @ (if fallbackOf config then map (\<lambda>f. (f, 0, 0, 0)) FACE_NAMES else [])
    \<and> process env this (config\<lparr>cfg_output := Some ''raw''\<rparr>) w = (Inr (RawResult d tiles md), w')
    \<and> length items = length tiles + 1)"
  using stream_structure by blast

theorem stream_order_witness:
  "\<exists>d items md w'.
     process sample_env (new_PannellumTiler None None) stream_fallback_config new_world
       = (Inr (StreamResult d items md), w')
   \<and> (\<exists>tiles. items = ConfigItem ''config.json'' d # map tileItem tiles
      \<and> map tileKey tiles
          = pyramidOrder FACE_NAMES (md_cubeResolution md) (md_tileSize md)
              (levelOf (md_maxLevel md))
            @ (if fallbackOf stream_fallback_config then map (\<lambda>f. (f, 0, 0, 0)) FACE_NAMES
               else [])
      \<and> process sample_env (new_PannellumTiler None None)
          (stream_fallback_config\<lparr>cfg_output := Some ''raw''\<rparr>) new_world
          = (Inr (RawResult d tiles md), w')
      \<and> length items = length tiles + 1)"
proof -
  obtain d items md w' where
    run: "process sample_env (new_PannellumTiler None None) stream_fallback_config new_world
            = (Inr (StreamResult d items md), w')"
    using stream_fallback_run by blast
  from stream_order[of sample_env "new_PannellumTiler None None" stream_fallback_config new_world
         d items md w', THEN mp, OF run] run
  show ?thesis by blast
qed

section \<open>Overrides of the level count and the cube resolution\<close>









section \<open>Further properties of the model\<close>

subsection \<open>Release on the success path\<close>

lemma reproject_releases_on_success:
  assumes run: "reprojectToCubeFaces env this img c onProgress w = (Inr faces, w')"
    and d: "\<forall>r. \<not> env_dispose_fails env r"
  shows "memory w' = new_MemoryManager"
proof -
  from run obtain w13 where da: "disposeAll (env_dispose_fails env) w13 = (None, w')"
    unfolding reprojectToCubeFaces_def
    by (auto simp: Let_def split: prod.splits sum.splits option.splits if_splits)
  have "\<forall>r \<in> set (tracked (memory w13)). \<not> env_dispose_fails env r" using d by blast
  from disposeAll_ok[OF this] da
  have "w' = w13\<lparr>released := released w13 @ tracked (memory w13), memory := new_MemoryManager\<rparr>"
    by simp
  then show ?thesis by simp
qed

end
